theory Spec2Isabelle
  imports
    Complex_Main
    "HOL-Library.Sublist"
    "HOL-Library.Char_ord"
    "HOL-Library.List_Lexorder"
begin

section \<open>Python values shared by the modules\<close>

subsection \<open>Exceptions\<close>

text \<open>
  The exception classes the sources raise or catch. Every class here derives from
  Python's \<^verbatim>\<open>Exception\<close>; \<^verbatim>\<open>TimeoutException\<close> derives from
  \<^verbatim>\<open>WebDriverException\<close> (selenium), \<^verbatim>\<open>JSONDecodeError\<close> (json) and
  \<^verbatim>\<open>UnicodeDecodeError\<close> from \<^verbatim>\<open>ValueError\<close>; \<^verbatim>\<open>RecursionError\<close>
  derives from \<^verbatim>\<open>RuntimeError\<close>, which no source names. An exception value
  carries its class and the text \<^verbatim>\<open>str(e)\<close> that the f-strings of the sources
  interpolate.
\<close>

datatype exn_class =
    Exception
  | WebDriverException
  | TimeoutException
  | ValueError
  | JSONDecodeError
  | TypeError
  | IOError
  | StatisticsError
  | UnicodeDecodeError
  | RecursionError

datatype exn = Exn (exn_cls: exn_class) (exn_msg: string)

fun is_subclass :: "exn_class \<Rightarrow> exn_class \<Rightarrow> bool" where
  "is_subclass c d =
     (c = d \<or> d = Exception
      \<or> (c = TimeoutException \<and> d = WebDriverException)
      \<or> (c = JSONDecodeError \<and> d = ValueError)
      \<or> (c = UnicodeDecodeError \<and> d = ValueError))"

definition isinstance :: "exn \<Rightarrow> exn_class \<Rightarrow> bool" where
  "isinstance e c = is_subclass (exn_cls e) c"

subsection \<open>Strings\<close>

text \<open>Python's \<^verbatim>\<open>needle in hay\<close> on strings.\<close>

fun str_contains :: "string \<Rightarrow> string \<Rightarrow> bool" where
  "str_contains needle [] = (needle = [])"
| "str_contains needle (c # cs) = (prefix needle (c # cs) \<or> str_contains needle cs)"

text \<open>\<^verbatim>\<open>str(n)\<close> / \<^verbatim>\<open>f"{n}"\<close> for an integer: its decimal digits.\<close>

definition digit_char :: "nat \<Rightarrow> char" where
  "digit_char d = ''0123456789'' ! (d mod 10)"

function str_nat :: "nat \<Rightarrow> string" where
  "str_nat n = (if n < 10 then [digit_char n] else str_nat (n div 10) @ [digit_char (n mod 10)])"
  by pat_completeness auto
termination
  by (relation "measure (\<lambda>n. n)") auto

definition str_int :: "int \<Rightarrow> string" where
  "str_int i = (if i < 0 then ''-'' @ str_nat (nat (- i)) else str_nat (nat i))"

subsection \<open>JSON values\<close>

text \<open>
  The values that \<^verbatim>\<open>json.load\<close> returns and \<^verbatim>\<open>json.dump\<close> accepts; a dictionary
  keeps its items in insertion order.
\<close>

datatype pyval =
    PNone
  | PBool bool
  | PInt int
  | PNum real
  | PStr string
  | PList "pyval list"
  | PDict "(string \<times> pyval) list"

section \<open>selenium\_utils.py: the timing sampler\<close>

datatype status = Success | Error

text \<open>The dictionary stored under \<^verbatim>\<open>navigation_timing\<close> on the success path.\<close>

record timing_breakdown =
  navigation_start :: int
  fetch_start :: int
  dns_lookup_time :: int
  connect_time :: int
  ttfb :: int
  dom_interactive :: int
  dom_content_loaded :: int
  dom_complete :: int
  load_event_start :: int
  load_event_end :: int
  total_load_from_nav_start :: int
  dom_processing_time :: int

datatype nav_timing = NavTiming timing_breakdown | NavError string

text \<open>
  The run configuration: the settings dictionary handed to the worker
  (\<^verbatim>\<open>self.config\<close>), and the values that the worker reads from it.
\<close>

record run_config =
  config_items :: "(string \<times> pyval) list"
  runs_per_url :: nat
  browser :: string
  headless :: bool
  timeout_seconds :: int
  wait_strategy :: string
  anti_detection_enabled :: bool
  run_dns_benchmark :: bool

text \<open>
  The result dictionary. \<^verbatim>\<open>error_message\<close> is \<open>None\<close> when the key is absent,
  \<open>Some None\<close> when it holds Python's \<^verbatim>\<open>None\<close> and \<open>Some (Some s)\<close> when it holds
  a string, and likewise \<^verbatim>\<open>navigation_timing\<close>; \<^verbatim>\<open>run_number\<close> and
  \<^verbatim>\<open>config\<close> are absent until the worker adds them. Times are real numbers: the floating-point rounding of the clock arithmetic is
  not modelled.
\<close>

record run_result =
  url :: string
  load_time_ms :: real
  status :: status
  error_message :: "string option option"
  navigation_timing :: "nav_timing option option"
  timestamp :: real
  run_number :: "nat option"
  config :: "(string \<times> pyval) list option"

text \<open>
  What the browser session does during one call of \<^verbatim>\<open>measure_load_time\<close>:
  the clock readings, and for each call into the driver whether it returns or raises.
  \<^verbatim>\<open>t_end\<close> is the one reading of \<^verbatim>\<open>time.perf_counter()\<close> made after
  \<^verbatim>\<open>t_start\<close> (line 174 on success, line 222 otherwise).
\<close>

record page_env =
  now :: real
  t_start :: real
  t_end :: real
  get_outcome :: "exn option"
  ready_wait :: "exn option"
  load_wait :: "exn option"
  timing_script :: "exn + (string \<times> int) list option"

definition initial_results :: "page_env \<Rightarrow> string \<Rightarrow> run_result" where
  "initial_results pe u =
     \<lparr>url = u, load_time_ms = - 1, status = Error, error_message = Some None,
      navigation_timing = Some None, timestamp = now pe, run_number = None, config = None\<rparr>"

text \<open>Lines 153-172: the wait selected by the strategy; \<open>Some e\<close> when it raises.\<close>

definition wait_for_load :: "page_env \<Rightarrow> string \<Rightarrow> exn option" where
  "wait_for_load pe ws =
     (if ws = ''ReadyState'' then ready_wait pe
      else if ws = ''LoadEventEnd'' then load_wait pe
      else if ws = ''Combined'' then
        (case ready_wait pe of Some e \<Rightarrow> Some e | None \<Rightarrow> load_wait pe)
      else Some (Exn ValueError (''Invalid wait_strategy: '' @ ws)))"

text \<open>\<^verbatim>\<open>timing_data.get(key, 0)\<close>\<close>

definition tget :: "(string \<times> int) list \<Rightarrow> string \<Rightarrow> int" where
  "tget td k = (case map_of td k of None \<Rightarrow> 0 | Some v \<Rightarrow> v)"

definition breakdown :: "(string \<times> int) list \<Rightarrow> int \<Rightarrow> timing_breakdown" where
  "breakdown td nav_start =
     \<lparr>navigation_start = nav_start,
      fetch_start = tget td ''fetchStart'',
      dns_lookup_time = tget td ''domainLookupEnd'' - tget td ''domainLookupStart'',
      connect_time = tget td ''connectEnd'' - tget td ''connectStart'',
      ttfb = tget td ''responseStart'' - tget td ''requestStart'',
      dom_interactive = tget td ''domInteractive'',
      dom_content_loaded = tget td ''domContentLoadedEventEnd'',
      dom_complete = tget td ''domComplete'',
      load_event_start = tget td ''loadEventStart'',
      load_event_end = tget td ''loadEventEnd'',
      total_load_from_nav_start =
        (if tget td ''loadEventEnd'' \<noteq> 0 then tget td ''loadEventEnd'' - nav_start else - 1),
      dom_processing_time =
        (if tget td ''domInteractive'' \<noteq> 0 \<and> tget td ''domComplete'' \<noteq> 0
         then tget td ''domComplete'' - tget td ''domInteractive'' else - 1)\<rparr>"

text \<open>Lines 179-202: the inner try, whose handler catches every \<^verbatim>\<open>Exception\<close>.\<close>

definition get_detailed_timing :: "page_env \<Rightarrow> run_result \<Rightarrow> exn + run_result" where
  "get_detailed_timing pe res =
     (case timing_script pe of
        Inl e \<Rightarrow>
          (if isinstance e Exception
           then Inr (res\<lparr>navigation_timing := Some (Some (NavError (exn_msg e)))\<rparr>)
           else Inl e)
      | Inr None \<Rightarrow> Inr res
      | Inr (Some td) \<Rightarrow>
          (if td = [] then Inr res
           else let nav_start = tget td ''navigationStart'' in
             if nav_start > 0
             then Inr (res\<lparr>navigation_timing := Some (Some (NavTiming (breakdown td nav_start)))\<rparr>)
             else Inr res))"

text \<open>
  Lines 146-202: the body of the outer try. It returns the dictionary as mutated so far
  and the exception that left the body, if one did.
\<close>

definition try_body :: "page_env \<Rightarrow> string \<Rightarrow> run_result \<Rightarrow> run_result \<times> exn option" where
  "try_body pe ws res =
     (case get_outcome pe of
        Some e \<Rightarrow> (res, Some e)
      | None \<Rightarrow>
          (case wait_for_load pe ws of
             Some e \<Rightarrow> (res, Some e)
           | None \<Rightarrow>
               (let res1 = res\<lparr>load_time_ms := (t_end pe - t_start pe) * 1000,
                                status := Success\<rparr>
                in case get_detailed_timing pe res1 of
                     Inl e \<Rightarrow> (res1, Some e)
                   | Inr res2 \<Rightarrow> (res2, None))))"

text \<open>
  Lines 205-217: the except clauses in their order; an exception that matches none of
  them leaves the function (\<open>Inl\<close>).
\<close>

definition handle_exn :: "int \<Rightarrow> string \<Rightarrow> exn \<Rightarrow> run_result \<Rightarrow> exn + run_result" where
  "handle_exn timeout ws e res =
     (if isinstance e TimeoutException then
        Inr (res\<lparr>status := Error,
                 error_message := Some (Some (''Timeout after '' @ str_int timeout
                    @ '' seconds waiting for page load ('' @ ws @ '' strategy).''))\<rparr>)
      else if isinstance e WebDriverException then
        Inr (res\<lparr>status := Error,
                 error_message := Some (Some (''WebDriver error: '' @ exn_msg e))\<rparr>)
      else if isinstance e Exception then
        Inr (res\<lparr>status := Error,
                 error_message := Some (Some (''Unexpected error: '' @ exn_msg e))\<rparr>)
      else Inl e)"

text \<open>Lines 219-223: the finally block.\<close>

definition finally_block :: "page_env \<Rightarrow> run_result \<Rightarrow> run_result" where
  "finally_block pe res =
     (if load_time_ms res < 0 \<and> status res = Error
      then res\<lparr>load_time_ms := (t_end pe - t_start pe) * 1000\<rparr>
      else res)"

definition measure_load_time ::
  "page_env \<Rightarrow> string \<Rightarrow> int \<Rightarrow> string \<Rightarrow> exn + run_result" where
  "measure_load_time pe u timeout ws =
     (case try_body pe ws (initial_results pe u) of
        (res, None) \<Rightarrow> Inr (finally_block pe res)
      | (res, Some e) \<Rightarrow>
          (case handle_exn timeout ws e res of
             Inl e' \<Rightarrow> Inl e'
           | Inr res' \<Rightarrow> Inr (finally_block pe res')))"

section \<open>worker.py: the run orchestrator\<close>

text \<open>
  The DNS benchmark's result: a label with its latency (absent in the entry the worker
  builds on failure) and its status text.
\<close>

type_synonym dns_results = "(string \<times> real option \<times> string) list"

text \<open>The six signals of \<^verbatim>\<open>TestWorker\<close>.\<close>

datatype signal =
    Progress nat nat
  | Status_update string
  | Result_ready run_result
  | Finished
  | Error_occurred string
  | Dns_results_ready dns_results

datatype driver = Driver nat

text \<open>
  One step of the worker thread: a signal it emits, a read of \<^verbatim>\<open>self._is_running\<close>
  with the value read, a call into a collaborator that has returned (or raised into a
  handler of \<^verbatim>\<open>run\<close>), or an exception that leaves \<^verbatim>\<open>run\<close>.
  \<open>Measured i r m\<close> records that \<^verbatim>\<open>measure_load_time\<close> returned \<open>m\<close> for run
  index \<open>r\<close> of the URL at position \<open>i\<close>.
\<close>

datatype action =
    Emit signal
  | Check bool
  | Dns_call
  | Setup_call nat
  | Measured nat nat run_result
  | Reset_call nat nat
  | Quit_call nat
  | Uncaught exn

text \<open>
  The world around one run of the worker. \<^verbatim>\<open>stop()\<close> runs on the caller's thread
  and only clears \<^verbatim>\<open>_is_running\<close>: \<open>stop_at = Some t\<close> says that it does so when
  the worker has performed \<open>t\<close> steps, so every later read of the flag gives
  \<^verbatim>\<open>False\<close>; \<open>None\<close> says that it is never called. The other fields give, by
  URL position and run index, what each collaborator does when called.
\<close>

record worker_env =
  stop_at :: "nat option"
  dns_outcome :: "exn + dns_results"
  setup_outcome :: "nat \<Rightarrow> exn + driver option"
  fail_time :: "nat \<Rightarrow> nat \<Rightarrow> real"
  page :: "nat \<Rightarrow> nat \<Rightarrow> page_env"
  reset_outcome :: "nat \<Rightarrow> nat \<Rightarrow> exn option"
  quit_outcome :: "nat \<Rightarrow> exn option"

text \<open>The worker's mutable state, with the steps performed so far.\<close>

record wstate =
  trace :: "action list"
  current_step :: nat
  driver :: "driver option"

datatype loop_exit = Completed | Broke | Raised exn

definition act :: "action \<Rightarrow> wstate \<Rightarrow> wstate" where
  "act a st = st\<lparr>trace := trace st @ [a]\<rparr>"

definition emit :: "signal \<Rightarrow> wstate \<Rightarrow> wstate" where
  "emit s st = act (Emit s) st"

definition running_at :: "worker_env \<Rightarrow> nat \<Rightarrow> bool" where
  "running_at env c = (case stop_at env of None \<Rightarrow> True | Some t \<Rightarrow> c < t)"

text \<open>A read of \<^verbatim>\<open>self._is_running\<close>.\<close>

definition check :: "worker_env \<Rightarrow> wstate \<Rightarrow> bool \<times> wstate" where
  "check env st =
     (let b = running_at env (length (trace st)) in (b, act (Check b) st))"

text \<open>Lines 40-52: the optional DNS phase, whose handler catches every \<^verbatim>\<open>Exception\<close>.\<close>

definition dns_phase :: "worker_env \<Rightarrow> wstate \<Rightarrow> loop_exit \<times> wstate" where
  "dns_phase env st =
     (let st1 = emit (Status_update ''Running DNS latency benchmark...'') st;
          st2 = act Dns_call st1
      in case dns_outcome env of
           Inr d \<Rightarrow>
             (Completed,
              emit (Status_update ''DNS benchmark finished.'') (emit (Dns_results_ready d) st2))
         | Inl e \<Rightarrow>
             (if isinstance e Exception then
                (Completed,
                 emit (Dns_results_ready [(''Error'', None, exn_msg e)])
                   (emit (Status_update (''Error during DNS benchmark: '' @ exn_msg e)) st2))
              else (Raised e, act (Uncaught e) st2)))"

text \<open>
  Lines 76-82: \<^verbatim>\<open>setup_driver\<close> returns a driver, raises, or returns
  \<^verbatim>\<open>None\<close>, which the worker turns into a \<^verbatim>\<open>WebDriverException\<close>.
\<close>

definition setup_result :: "worker_env \<Rightarrow> nat \<Rightarrow> exn + driver" where
  "setup_result env i =
     (case setup_outcome env i of
        Inl e \<Rightarrow> Inl e
      | Inr None \<Rightarrow>
          Inl (Exn WebDriverException
                 (''Message: setup_driver returned None unexpectedly.'' @ [CHR 0x0A]))
      | Inr (Some d) \<Rightarrow> Inr d)"

text \<open>Lines 96-105: the result emitted for a run of a URL whose driver setup failed.\<close>

definition error_result ::
  "worker_env \<Rightarrow> run_config \<Rightarrow> nat \<Rightarrow> string \<Rightarrow> exn \<Rightarrow> nat \<Rightarrow> run_result" where
  "error_result env cfg i u e run_num_fail =
     \<lparr>url = u, load_time_ms = - 1, status = Error,
      error_message = Some (Some (''Driver setup failed: '' @ exn_msg e)),
      navigation_timing = None, timestamp = fail_time env i run_num_fail,
      run_number = Some (run_num_fail + 1), config = Some (config_items cfg)\<rparr>"

text \<open>Lines 93-106: one error result per planned run; the flag is not read here.\<close>

fun fail_loop ::
  "worker_env \<Rightarrow> run_config \<Rightarrow> nat \<Rightarrow> nat \<Rightarrow> string \<Rightarrow> exn \<Rightarrow> nat list \<Rightarrow> wstate \<Rightarrow> wstate"
where
  "fail_loop env cfg total_steps i u e [] st = st"
| "fail_loop env cfg total_steps i u e (run_num_fail # rest) st =
     (let st1 = st\<lparr>current_step := current_step st + 1\<rparr>;
          st2 = emit (Progress (current_step st1) total_steps) st1;
          st3 = emit (Result_ready (error_result env cfg i u e run_num_fail)) st2
      in fail_loop env cfg total_steps i u e rest st3)"

text \<open>Lines 86-108: the handler of a failed driver setup.\<close>

definition setup_failed ::
  "worker_env \<Rightarrow> run_config \<Rightarrow> nat \<Rightarrow> nat \<Rightarrow> string \<Rightarrow> exn \<Rightarrow> wstate \<Rightarrow> wstate" where
  "setup_failed env cfg total_steps i u e st =
     (let error_msg = ''Fatal Error initializing driver for '' @ u @ '': '' @ exn_msg e;
          st1 = emit (Status_update error_msg) st;
          st2 = emit (Error_occurred error_msg) st1
      in fail_loop env cfg total_steps i u e [0..<runs_per_url cfg] st2)"

text \<open>Lines 125-126: the worker tags the measurement.\<close>

definition tag_result :: "run_config \<Rightarrow> nat \<Rightarrow> run_result \<Rightarrow> run_result" where
  "tag_result cfg run m = m\<lparr>run_number := Some (run + 1), config := Some (config_items cfg)\<rparr>"

text \<open>
  A \<^verbatim>\<open>for\<close> loop over a list: the body says whether the iteration ran to its end
  (or reached \<^verbatim>\<open>continue\<close>), reached \<^verbatim>\<open>break\<close>, or raised.
\<close>

fun for_each ::
  "('a \<Rightarrow> wstate \<Rightarrow> loop_exit \<times> wstate) \<Rightarrow> 'a list \<Rightarrow> wstate \<Rightarrow> loop_exit \<times> wstate"
where
  "for_each body [] st = (Completed, st)"
| "for_each body (x # xs) st =
     (let r = body x st in if fst r = Completed then for_each body xs (snd r) else r)"

text \<open>
  Lines 113-141: one run of one URL. The call of \<^verbatim>\<open>measure_load_time\<close> is not
  inside a try: an exception it raised would leave \<^verbatim>\<open>run\<close>. The reset of the
  browser state is inside one, so its outcome changes nothing.
\<close>

definition run_body ::
  "worker_env \<Rightarrow> run_config \<Rightarrow> nat \<Rightarrow> nat \<Rightarrow> string \<Rightarrow> nat \<Rightarrow> wstate \<Rightarrow> loop_exit \<times> wstate"
where
  "run_body env cfg total_steps i u run st =
     (let (b, st1) = check env st in
      if \<not> b then (Broke, st1)
      else
        let st2 = st1\<lparr>current_step := current_step st1 + 1\<rparr>;
            st3 = emit (Progress (current_step st2) total_steps) st2;
            st4 = emit (Status_update (''Running test '' @ str_nat (run + 1) @ ''/''
                     @ str_nat (runs_per_url cfg) @ '' for '' @ u @ ''...'')) st3
        in case measure_load_time (page env i run) u (timeout_seconds cfg) (wait_strategy cfg) of
             Inl e \<Rightarrow> (Raised e, act (Uncaught e) st4)
           | Inr m \<Rightarrow>
               (let measurement_result = tag_result cfg run m;
                    st5 = act (Measured i run m) st4;
                    (b', st6) = check env st5
                in if \<not> b' then (Broke, st6)
                   else
                     let st7 = emit (Result_ready measurement_result) st6;
                         st8 = act (Reset_call i run) st7
                     in (Completed, st8)))"

text \<open>Line 112: the loop over \<^verbatim>\<open>range(self.runs_per_url)\<close>.\<close>

definition runs_loop ::
  "worker_env \<Rightarrow> run_config \<Rightarrow> nat \<Rightarrow> nat \<Rightarrow> string \<Rightarrow> wstate \<Rightarrow> loop_exit \<times> wstate"
where
  "runs_loop env cfg total_steps i u st =
     for_each (run_body env cfg total_steps i u) [0..<runs_per_url cfg] st"

text \<open>Lines 147-156: quitting the driver; a failure only changes the status text.\<close>

definition quit_driver :: "worker_env \<Rightarrow> nat \<Rightarrow> string \<Rightarrow> wstate \<Rightarrow> wstate" where
  "quit_driver env i u st =
     (let st1 =
        (case driver st of
           None \<Rightarrow> st
         | Some d \<Rightarrow>
             (let st' = act (Quit_call i) st
              in case quit_outcome env i of
                   None \<Rightarrow> emit (Status_update (''Browser driver closed for '' @ u @ ''.'')) st'
                 | Some e \<Rightarrow>
                     emit (Status_update (''Warning: Error quitting driver for '' @ u @ '': ''
                             @ exn_msg e)) st'))
      in st1\<lparr>driver := None\<rparr>)"

text \<open>
  Lines 83-84 and 111-160: what the loop body does with the driver \<open>d\<close> that
  \<^verbatim>\<open>setup_driver\<close> returned: the runs, closing the driver, and the check of the flag
  that ends the iteration.
\<close>

definition test_url ::
  "worker_env \<Rightarrow> run_config \<Rightarrow> nat \<Rightarrow> nat \<Rightarrow> string \<Rightarrow> driver \<Rightarrow> wstate \<Rightarrow> loop_exit \<times> wstate"
where
  "test_url env cfg total_steps i u d st =
     (let st4 = emit (Status_update (''Driver ready for '' @ u @ ''.''))
                  (st\<lparr>driver := Some d\<rparr>);
          st5 = emit (Status_update (''Testing URL: '' @ u @ '' (''
                   @ str_nat (runs_per_url cfg) @ '' runs)'')) st4;
          (ex, st6) = runs_loop env cfg total_steps i u st5
      in case ex of
           Raised e \<Rightarrow> (Raised e, st6)
         | _ \<Rightarrow>
             (let (b', st8) = check env (quit_driver env i u st6)
              in if \<not> b' then (Broke, st8) else (Completed, st8)))"

text \<open>
  Lines 64-160: the body of the loop over the URLs, for the URL \<open>u\<close> at position \<open>i\<close>.
  After a failed setup the handler ends in \<^verbatim>\<open>continue\<close>.
\<close>

definition url_body ::
  "worker_env \<Rightarrow> run_config \<Rightarrow> nat \<Rightarrow> nat \<times> string \<Rightarrow> wstate \<Rightarrow> loop_exit \<times> wstate"
where
  "url_body env cfg total_steps iu st =
     (let i = fst iu; u = snd iu; (b, st1) = check env st in
      if \<not> b then (Broke, emit (Status_update ''Test stopped by user.'') st1)
      else
        let st2 = emit (Status_update (''Initializing driver for URL: '' @ u @ ''...''))
                    (st1\<lparr>driver := None\<rparr>);
            st3 = act (Setup_call i) st2
        in case setup_result env i of
             Inl setup_error \<Rightarrow>
               (if isinstance setup_error Exception then
                  (Completed, setup_failed env cfg total_steps i u setup_error st3)
                else (Raised setup_error, act (Uncaught setup_error) st3))
           | Inr d \<Rightarrow> test_url env cfg total_steps i u d st3)"

text \<open>Line 63: the loop over \<^verbatim>\<open>self.urls\<close>, each URL with its position.\<close>

definition urls_loop ::
  "worker_env \<Rightarrow> run_config \<Rightarrow> nat \<Rightarrow> string list \<Rightarrow> wstate \<Rightarrow> loop_exit \<times> wstate"
where
  "urls_loop env cfg total_steps urls st =
     for_each (url_body env cfg total_steps) (enumerate 0 urls) st"

text \<open>Lines 34-166: \<^verbatim>\<open>TestWorker.run\<close>.\<close>

definition initial_state :: wstate where
  "initial_state = \<lparr>trace = [], current_step = 0, driver = None\<rparr>"

definition browse_phase :: "worker_env \<Rightarrow> string list \<Rightarrow> run_config \<Rightarrow> wstate \<Rightarrow> wstate" where
  "browse_phase env urls cfg st =
     (let (b, st1) = check env st in
      if \<not> b then
        emit Finished (emit (Status_update ''Test stopped after DNS benchmark.'') st1)
      else
        let st2 = emit (Status_update ''Starting Browse speed tests...'') st1;
            (ex, st3) = urls_loop env cfg (length urls * runs_per_url cfg) urls st2
        in case ex of
             Raised e \<Rightarrow> st3
           | _ \<Rightarrow>
               (let (b', st4) = check env st3
                in if b' then emit Finished (emit (Status_update ''Testing finished.'') st4)
                   else emit Finished st4))"

definition run :: "worker_env \<Rightarrow> string list \<Rightarrow> run_config \<Rightarrow> wstate" where
  "run env urls cfg =
     (if run_dns_benchmark cfg then
        (let (ex, st) = dns_phase env initial_state
         in case ex of
              Raised e \<Rightarrow> st
            | _ \<Rightarrow> browse_phase env urls cfg st)
      else browse_phase env urls cfg initial_state)"

text \<open>
  \<open>extends Q st st'\<close>: the steps of \<open>st'\<close> are those of \<open>st\<close> followed by steps that
  all satisfy \<open>Q\<close>.
\<close>

definition extends :: "(action \<Rightarrow> bool) \<Rightarrow> wstate \<Rightarrow> wstate \<Rightarrow> bool" where
  "extends Q st st' = (\<exists>new. trace st' = trace st @ new \<and> list_all Q new)"

text \<open>A step that is neither the \<^verbatim>\<open>finished\<close> signal nor an escaping exception.\<close>

definition internal :: "action \<Rightarrow> bool" where
  "internal a = (a \<noteq> Emit Finished \<and> (\<forall>e. a \<noteq> Uncaught e))"

text \<open>The results a trace emits, in order.\<close>

fun results_of :: "action list \<Rightarrow> run_result list" where
  "results_of [] = []"
| "results_of (Emit (Result_ready r) # as) = r # results_of as"
| "results_of (a # as) = results_of as"

text \<open>
  The results a run without a stop request is expected to emit for one run of a URL
  (the tagged measurement) and for one URL (an error result per planned run when the
  driver setup failed, the measurements otherwise).
\<close>

definition run_results ::
  "worker_env \<Rightarrow> run_config \<Rightarrow> nat \<Rightarrow> string \<Rightarrow> nat \<Rightarrow> run_result list" where
  "run_results env cfg i u rn =
     (case measure_load_time (page env i rn) u (timeout_seconds cfg) (wait_strategy cfg) of
        Inl e \<Rightarrow> []
      | Inr m \<Rightarrow> [tag_result cfg rn m])"

definition url_results ::
  "worker_env \<Rightarrow> run_config \<Rightarrow> nat \<times> string \<Rightarrow> run_result list" where
  "url_results env cfg iu =
     (case setup_result env (fst iu) of
        Inl e \<Rightarrow> map (error_result env cfg (fst iu) (snd iu) e) [0..<runs_per_url cfg]
      | Inr d \<Rightarrow> concat (map (run_results env cfg (fst iu) (snd iu)) [0..<runs_per_url cfg]))"


text \<open>The states between the two status lines of lines 83 and 111.\<close>

definition st5_of :: "run_config \<Rightarrow> string \<Rightarrow> driver \<Rightarrow> wstate \<Rightarrow> wstate" where
  "st5_of cfg u d st =
     emit (Status_update (''Testing URL: '' @ u @ '' ('' @ str_nat (runs_per_url cfg) @ '' runs)''))
       (emit (Status_update (''Driver ready for '' @ u @ ''.'')) (st\<lparr>driver := Some d\<rparr>))"

section \<open>gui.py: the summary report\<close>

text \<open>
  Running a computation that may raise and passing its value on: the rest is skipped
  when it raises.
\<close>

definition and_then :: "exn + 'a \<Rightarrow> ('a \<Rightarrow> exn + 'b) \<Rightarrow> exn + 'b" where
  "and_then r f = (case r of Inl e \<Rightarrow> Inl e | Inr x \<Rightarrow> f x)"

text \<open>
  The functions of Python's \<^verbatim>\<open>statistics\<close> module and the built-ins the report
  calls, on real numbers (the rounding of floating-point arithmetic is not modelled).
  Each raises on the inputs on which the Python function raises.
\<close>

definition py_mean :: "real list \<Rightarrow> exn + real" where
  "py_mean xs =
     (if xs = [] then Inl (Exn StatisticsError ''mean requires at least one data point'')
      else Inr (sum_list xs / real (length xs)))"

definition py_min :: "real list \<Rightarrow> exn + real" where
  "py_min xs =
     (case xs of
        [] \<Rightarrow> Inl (Exn ValueError ''min() arg is an empty sequence'')
      | x # rest \<Rightarrow> Inr (fold min rest x))"

definition py_max :: "real list \<Rightarrow> exn + real" where
  "py_max xs =
     (case xs of
        [] \<Rightarrow> Inl (Exn ValueError ''max() arg is an empty sequence'')
      | x # rest \<Rightarrow> Inr (fold max rest x))"

definition py_median :: "real list \<Rightarrow> exn + real" where
  "py_median xs =
     (let d = sort xs; n = length d in
      if n = 0 then Inl (Exn StatisticsError ''no median for empty data'')
      else if n mod 2 = 1 then Inr (d ! (n div 2))
      else Inr ((d ! (n div 2 - 1) + d ! (n div 2)) / 2))"

text \<open>\<^verbatim>\<open>statistics.stdev\<close>: the square root of the sample variance.\<close>

definition py_stdev :: "real list \<Rightarrow> exn + real" where
  "py_stdev xs =
     (if length xs < 2
      then Inl (Exn StatisticsError ''stdev requires at least two data points'')
      else let mu = sum_list xs / real (length xs)
           in Inr (sqrt (sum_list (map (\<lambda>x. (x - mu)\<^sup>2) xs) / real (length xs - 1))))"

text \<open>
  \<^verbatim>\<open>round(x, 2)\<close>: to the nearest multiple of 0.01, a tie going to the even one.
\<close>

definition round_half_even :: "real \<Rightarrow> int" where
  "round_half_even y =
     (let f = \<lfloor>y\<rfloor>; d = y - of_int f in
      if d < 1 / 2 then f else if 1 / 2 < d then f + 1 else if even f then f else f + 1)"

definition py_round2 :: "real \<Rightarrow> real" where
  "py_round2 x = of_int (round_half_even (x * 100)) / 100"

text \<open>A statistic of the summary: a number, or the string \<^verbatim>\<open>N/A\<close>.\<close>

datatype stat = Num real | NA

text \<open>
  One entry of the summary. An error message is \<open>None\<close> when the stored value is
  Python's \<^verbatim>\<open>None\<close>.
\<close>

record url_summary =
  s_url :: string
  num_successful_runs :: nat
  num_errors :: nat
  avg_load_time_ms :: stat
  min_load_time_ms :: stat
  max_load_time_ms :: stat
  median_load_time_ms :: stat
  std_dev_load_time_ms :: stat
  error_messages :: "string option list"

text \<open>\<^verbatim>\<open>e.get('error_message', 'Unknown Error')\<close>\<close>

definition message_or_unknown :: "run_result \<Rightarrow> string option" where
  "message_or_unknown e =
     (case error_message e of None \<Rightarrow> Some ''Unknown Error'' | Some v \<Rightarrow> v)"

text \<open>Lines 398-426: the entry of one URL.\<close>

definition url_entry :: "run_result list \<Rightarrow> string \<Rightarrow> exn + url_summary" where
  "url_entry results_data u =
     (let url_results = filter (\<lambda>r. url r = u \<and> status r = Success) results_data;
          url_errors = filter (\<lambda>r. url r = u \<and> status r = Error) results_data;
          load_times = map load_time_ms (filter (\<lambda>r. 0 \<le> load_time_ms r) url_results)
      in if load_times \<noteq> [] then
           and_then (py_mean load_times) (\<lambda>avg.
           and_then (py_min load_times) (\<lambda>mn.
           and_then (py_max load_times) (\<lambda>mx.
           and_then (py_median load_times) (\<lambda>md.
           and_then (if 1 < length load_times
                     then and_then (py_stdev load_times) (\<lambda>sd. Inr (py_round2 sd))
                     else Inr 0) (\<lambda>sd.
           Inr \<lparr>s_url = u,
                num_successful_runs = length load_times,
                num_errors = length url_errors,
                avg_load_time_ms = Num (py_round2 avg),
                min_load_time_ms = Num (py_round2 mn),
                max_load_time_ms = Num (py_round2 mx),
                median_load_time_ms = Num (py_round2 md),
                std_dev_load_time_ms = Num sd,
                error_messages = map message_or_unknown url_errors\<rparr>)))))
         else
           Inr \<lparr>s_url = u,
                num_successful_runs = 0,
                num_errors = length url_errors,
                avg_load_time_ms = NA,
                min_load_time_ms = NA,
                max_load_time_ms = NA,
                median_load_time_ms = NA,
                std_dev_load_time_ms = NA,
                error_messages = map message_or_unknown url_errors\<rparr>)"

text \<open>Lines 397-426: the loop over the URLs; the summary keeps the order of insertion.\<close>

fun summarize_urls :: "run_result list \<Rightarrow> string list \<Rightarrow> exn + (string \<times> url_summary) list" where
  "summarize_urls results_data [] = Inr []"
| "summarize_urls results_data (u # us) =
     and_then (url_entry results_data u) (\<lambda>entry.
     and_then (summarize_urls results_data us) (\<lambda>rest. Inr ((u, entry) # rest)))"

text \<open>
  Lines 389-427. \<^verbatim>\<open>sorted(list(set(...)))\<close> is the list of the distinct URLs in
  ascending order.
\<close>

definition generate_summary_report :: "run_result list \<Rightarrow> exn + (string \<times> url_summary) list" where
  "generate_summary_report results_data =
     (if results_data = [] then Inr []
      else summarize_urls results_data (sort (remdups (map url results_data))))"

section \<open>settings\_manager.py and the JSON export\<close>

definition DEFAULT_SETTINGS :: "(string \<times> pyval) list" where
  "DEFAULT_SETTINGS =
     [(''urls'', PList [PStr ''https://www.google.com'', PStr ''https://www.wikipedia.org'',
                        PStr ''https://github.com'']),
      (''runs_per_url'', PInt 3),
      (''browser'', PStr ''Chrome''),
      (''headless'', PBool False),
      (''timeout_seconds'', PInt 60),
      (''wait_strategy'', PStr ''Combined''),
      (''anti_detection_enabled'', PBool True),
      (''export_format'', PStr ''CSV''),
      (''results'', PList [])]"

text \<open>
  What \<^verbatim>\<open>settings.json\<close> holds, by what \<^verbatim>\<open>json.load\<close> does with it: text that
  parses to a value, or content on which \<^verbatim>\<open>json.load\<close> raises. It raises
  \<^verbatim>\<open>JSONDecodeError\<close> on text that is not JSON, \<^verbatim>\<open>UnicodeDecodeError\<close> on
  bytes that are not text in the encoding the file is opened with, and
  \<^verbatim>\<open>RecursionError\<close> on JSON nested deeper than the interpreter's recursion limit.
\<close>

datatype file_text = Json_text pyval | Load_raises exn

text \<open>
  The file system as the module sees it: the file, if it exists, and the message of
  the \<^verbatim>\<open>IOError\<close> that opening it for reading or for writing raises, if it does.
\<close>

record fs_state =
  settings_file :: "file_text option"
  read_error :: "string option"
  write_error :: "string option"

text \<open>
  Lines 48-55: \<^verbatim>\<open>save_settings\<close> catches \<^verbatim>\<open>IOError\<close> and logs it; the file is
  written only when opening it succeeds.
\<close>

definition save_settings :: "pyval \<Rightarrow> fs_state \<Rightarrow> exn option \<times> fs_state" where
  "save_settings settings fs =
     (case write_error fs of
        None \<Rightarrow> (None, fs\<lparr>settings_file := Some (Json_text settings)\<rparr>)
      | Some msg \<Rightarrow>
          (if isinstance (Exn IOError msg) IOError then (None, fs)
           else (Some (Exn IOError msg), fs)))"

text \<open>
  \<^verbatim>\<open>key not in settings\<close> and \<^verbatim>\<open>settings[key] = value\<close> for a string key, on
  whatever value the file parsed to: membership is defined on dictionaries, lists and
  strings, item assignment with a string key on dictionaries only.
\<close>

definition type_name :: "pyval \<Rightarrow> string" where
  "type_name v =
     (case v of
        PNone \<Rightarrow> ''NoneType'' | PBool b \<Rightarrow> ''bool'' | PInt i \<Rightarrow> ''int'' | PNum x \<Rightarrow> ''float''
      | PStr t \<Rightarrow> ''str'' | PList l \<Rightarrow> ''list'' | PDict d \<Rightarrow> ''dict'')"

definition key_in :: "string \<Rightarrow> pyval \<Rightarrow> exn + bool" where
  "key_in k s =
     (case s of
        PDict d \<Rightarrow> Inr (k \<in> fst ` set d)
      | PList l \<Rightarrow> Inr (PStr k \<in> set l)
      | PStr t \<Rightarrow> Inr (str_contains k t)
      | _ \<Rightarrow>
          Inl (Exn TypeError
                 (''argument of type '' @ [CHR 0x27] @ type_name s @ [CHR 0x27]
                  @ '' is not iterable'')))"

definition set_item :: "string \<Rightarrow> pyval \<Rightarrow> pyval \<Rightarrow> exn + pyval" where
  "set_item k v s =
     (case s of
        PDict d \<Rightarrow>
          Inr (PDict (if k \<in> fst ` set d
                      then map (\<lambda>kv. if fst kv = k then (k, v) else kv) d
                      else d @ [(k, v)]))
      | PList l \<Rightarrow> Inl (Exn TypeError ''list indices must be integers or slices, not str'')
      | _ \<Rightarrow>
          Inl (Exn TypeError
                 ([CHR 0x27] @ type_name s @ [CHR 0x27]
                  @ '' object does not support item assignment'')))"

text \<open>Lines 35-39: the loop over the default items; the flag says whether a key was added.\<close>

fun back_fill :: "(string \<times> pyval) list \<Rightarrow> pyval \<Rightarrow> bool \<Rightarrow> exn + pyval \<times> bool" where
  "back_fill [] settings updated = Inr (settings, updated)"
| "back_fill ((key, val) # rest) settings updated =
     and_then (key_in key settings) (\<lambda>present.
       if present then back_fill rest settings updated
       else and_then (set_item key val settings) (\<lambda>settings'. back_fill rest settings' True))"

text \<open>
  Lines 32-42: the body of the try. Opening the file can raise \<^verbatim>\<open>IOError\<close>;
  \<^verbatim>\<open>json.load\<close> returns the parsed value or raises; the loop of the back-fill
  raises on a value that is not a dictionary.
\<close>

definition read_settings :: "fs_state \<Rightarrow> (exn + pyval) \<times> fs_state" where
  "read_settings fs =
     (case read_error fs of
        Some msg \<Rightarrow> (Inl (Exn IOError msg), fs)
      | None \<Rightarrow>
          (case settings_file fs of
             None \<Rightarrow> (Inl (Exn IOError ''No such file or directory''), fs)
           | Some (Load_raises e) \<Rightarrow> (Inl e, fs)
           | Some (Json_text settings) \<Rightarrow>
               (case back_fill DEFAULT_SETTINGS settings False of
                  Inl e \<Rightarrow> (Inl e, fs)
                | Inr (settings', updated) \<Rightarrow>
                    (if updated then
                       (case save_settings settings' fs of
                          (None, fs') \<Rightarrow> (Inr settings', fs')
                        | (Some e, fs') \<Rightarrow> (Inl e, fs'))
                     else (Inr settings', fs)))))"

text \<open>
  Lines 25-46: \<^verbatim>\<open>load_settings\<close>. The handler catches \<^verbatim>\<open>JSONDecodeError\<close> and
  \<^verbatim>\<open>IOError\<close>; any other exception leaves the function.
\<close>

definition load_settings :: "fs_state \<Rightarrow> (exn + pyval) \<times> fs_state" where
  "load_settings fs =
     (if settings_file fs = None then
        (case save_settings (PDict DEFAULT_SETTINGS) fs of
           (None, fs') \<Rightarrow> (Inr (PDict DEFAULT_SETTINGS), fs')
         | (Some e, fs') \<Rightarrow> (Inl e, fs'))
      else
        (case read_settings fs of
           (Inr settings, fs') \<Rightarrow> (Inr settings, fs')
         | (Inl e, fs') \<Rightarrow>
             (if isinstance e JSONDecodeError \<or> isinstance e IOError
              then (Inr (PDict DEFAULT_SETTINGS), fs')
              else (Inl e, fs'))))"

subsection \<open>gui.py: the JSON export\<close>

text \<open>
  A result as the dictionary it is in memory, key by key as
  \<^verbatim>\<open>measure_load_time\<close> (lines 135-142, 185-202) and the worker (lines 96-105 and
  125-126) build it; a key is there when the record says so.
\<close>

definition status_str :: "status \<Rightarrow> string" where
  "status_str s = (case s of Success \<Rightarrow> ''Success'' | Error \<Rightarrow> ''Error'')"

definition timing_dict :: "nav_timing \<Rightarrow> pyval" where
  "timing_dict t =
     (case t of
        NavError msg \<Rightarrow> PDict [(''error'', PStr msg)]
      | NavTiming b \<Rightarrow>
          PDict [(''navigation_start'', PInt (navigation_start b)),
                 (''fetch_start'', PInt (fetch_start b)),
                 (''dns_lookup_time'', PInt (dns_lookup_time b)),
                 (''connect_time'', PInt (connect_time b)),
                 (''ttfb'', PInt (ttfb b)),
                 (''dom_interactive'', PInt (dom_interactive b)),
                 (''dom_content_loaded'', PInt (dom_content_loaded b)),
                 (''dom_complete'', PInt (dom_complete b)),
                 (''load_event_start'', PInt (load_event_start b)),
                 (''load_event_end'', PInt (load_event_end b)),
                 (''total_load_from_nav_start'', PInt (total_load_from_nav_start b)),
                 (''dom_processing_time'', PInt (dom_processing_time b))])"

definition result_dict :: "run_result \<Rightarrow> pyval" where
  "result_dict r =
     PDict ([(''url'', PStr (url r)),
             (''load_time_ms'', PNum (load_time_ms r)),
             (''status'', PStr (status_str (status r)))]
            @ (case error_message r of
                 None \<Rightarrow> []
               | Some None \<Rightarrow> [(''error_message'', PNone)]
               | Some (Some msg) \<Rightarrow> [(''error_message'', PStr msg)])
            @ (case navigation_timing r of
                 None \<Rightarrow> []
               | Some None \<Rightarrow> [(''navigation_timing'', PNone)]
               | Some (Some t) \<Rightarrow> [(''navigation_timing'', timing_dict t)])
            @ [(''timestamp'', PNum (timestamp r))]
            @ (case run_number r of
                 None \<Rightarrow> []
               | Some n \<Rightarrow> [(''run_number'', PInt (int n))])
            @ (case config r of
                 None \<Rightarrow> []
               | Some c \<Rightarrow> [(''config'', PDict c)]))"

text \<open>The summary as the dictionary of dictionaries of lines 404-426.\<close>

definition stat_val :: "stat \<Rightarrow> pyval" where
  "stat_val s = (case s of Num x \<Rightarrow> PNum x | NA \<Rightarrow> PStr ''N/A'')"

definition entry_dict :: "url_summary \<Rightarrow> pyval" where
  "entry_dict e =
     PDict [(''url'', PStr (s_url e)),
            (''num_successful_runs'', PInt (int (num_successful_runs e))),
            (''num_errors'', PInt (int (num_errors e))),
            (''avg_load_time_ms'', stat_val (avg_load_time_ms e)),
            (''min_load_time_ms'', stat_val (min_load_time_ms e)),
            (''max_load_time_ms'', stat_val (max_load_time_ms e)),
            (''median_load_time_ms'', stat_val (median_load_time_ms e)),
            (''std_dev_load_time_ms'', stat_val (std_dev_load_time_ms e)),
            (''error_messages'',
               PList (map (\<lambda>m. case m of None \<Rightarrow> PNone | Some t \<Rightarrow> PStr t)
                        (error_messages e)))]"

definition summary_dict :: "(string \<times> url_summary) list \<Rightarrow> pyval" where
  "summary_dict summary = PDict (map (\<lambda>(u, e). (u, entry_dict e)) summary)"

text \<open>
  Lines 488-492: the dictionary that \<^verbatim>\<open>export_report\<close> hands to
  \<^verbatim>\<open>json.dump\<close>, from the items of \<^verbatim>\<open>self.settings\<close> and the results.
\<close>

definition export_data :: "(string \<times> pyval) list \<Rightarrow> run_result list \<Rightarrow> exn + pyval" where
  "export_data settings results_data =
     and_then (generate_summary_report results_data) (\<lambda>summary.
       Inr (PDict [(''summary_report'', summary_dict summary),
                   (''raw_results'', PList (map result_dict results_data)),
                   (''test_configuration'',
                      PDict (filter (\<lambda>kv. fst kv \<noteq> ''results'') settings))]))"

text \<open>\<^verbatim>\<open>d[key]\<close> on a parsed document; \<open>None\<close> when it is not there.\<close>

definition item :: "pyval \<Rightarrow> string \<Rightarrow> pyval option" where
  "item v k = (case v of PDict d \<Rightarrow> map_of d k | _ \<Rightarrow> None)"

section \<open>Concrete inputs\<close>

text \<open>Sessions used to evaluate the sampler: the ready-state wait times out.\<close>

definition pe_ready_timeout :: page_env where
  "pe_ready_timeout = \<lparr>now = 1700000000, t_start = 5, t_end = 35, get_outcome = None,
      ready_wait = Some (Exn TimeoutException ''Message: ''), load_wait = None,
      timing_script = Inr None\<rparr>"

text \<open>The page loads and the timing script raises.\<close>

definition pe_timing_error :: page_env where
  "pe_timing_error = \<lparr>now = 1700000000, t_start = 5, t_end = 7, get_outcome = None,
      ready_wait = None, load_wait = None,
      timing_script = Inl (Exn WebDriverException ''Message: javascript error'')\<rparr>"

text \<open>The navigation itself raises.\<close>

definition pe_nav_error :: page_env where
  "pe_nav_error = \<lparr>now = 1700000000, t_start = 5, t_end = 6,
      get_outcome = Some (Exn WebDriverException ''Message: net::ERR_NAME_NOT_RESOLVED''),
      ready_wait = None, load_wait = None, timing_script = Inr None\<rparr>"

text \<open>The page loads and no timing data comes back.\<close>

definition pe_loaded :: page_env where
  "pe_loaded = \<lparr>now = 1700000000, t_start = 5, t_end = 6, get_outcome = None,
      ready_wait = None, load_wait = None, timing_script = Inr None\<rparr>"

text \<open>A configuration of two runs per URL with the Combined strategy and no DNS phase.\<close>

definition cfg_two_runs :: run_config where
  "cfg_two_runs = \<lparr>config_items =
        [(''urls'', PList [PStr ''https://a.example'']), (''runs_per_url'', PInt 2),
         (''browser'', PStr ''Chrome''), (''headless'', PBool True),
         (''timeout_seconds'', PInt 30), (''wait_strategy'', PStr ''Combined''),
         (''anti_detection_enabled'', PBool False), (''export_format'', PStr ''JSON''),
         (''results'', PList []), (''run_dns_benchmark'', PBool False)],
      runs_per_url = 2, browser = ''Chrome'', headless = True,
      timeout_seconds = 30, wait_strategy = ''Combined'', anti_detection_enabled = False,
      run_dns_benchmark = False\<rparr>"

text \<open>Every setup and every page load succeeds; \<open>stop\<close> is called after \<open>t\<close> steps, if at all.\<close>

definition env_loads :: "nat option \<Rightarrow> worker_env" where
  "env_loads t = \<lparr>stop_at = t, dns_outcome = Inr [],
      setup_outcome = (\<lambda>i. Inr (Some (Driver i))), fail_time = (\<lambda>i r. 1700000000),
      page = (\<lambda>i r. pe_loaded), reset_outcome = (\<lambda>i r. None), quit_outcome = (\<lambda>i. None)\<rparr>"

text \<open>
  The driver setup of the URL at position 0 raises, every other setup and every page
  load succeeds; \<open>stop\<close> is called after \<open>t\<close> steps, if at all.
\<close>

definition env_first_setup_fails :: "nat option \<Rightarrow> worker_env" where
  "env_first_setup_fails t = \<lparr>stop_at = t, dns_outcome = Inr [],
      setup_outcome = (\<lambda>i. if i = 0
         then Inl (Exn WebDriverException ''Message: ChromeDriver setup failed: no chrome'')
         else Inr (Some (Driver i))),
      fail_time = (\<lambda>i r. 1700000000),
      page = (\<lambda>i r. pe_loaded), reset_outcome = (\<lambda>i r. None), quit_outcome = (\<lambda>i. None)\<rparr>"



text \<open>Results as the worker hands them to the window: a success with its load time.\<close>

definition success_result :: "string \<Rightarrow> nat \<Rightarrow> real \<Rightarrow> run_result" where
  "success_result u k t =
     \<lparr>url = u, load_time_ms = t, status = Success, error_message = Some None,
      navigation_timing = Some None, timestamp = 1700000000, run_number = Some k,
      config = Some (config_items cfg_two_runs)\<rparr>"

text \<open>A failed run with the content of its \<^verbatim>\<open>error_message\<close> key, if it has one.\<close>

definition failed_result :: "string \<Rightarrow> nat \<Rightarrow> string option option \<Rightarrow> run_result" where
  "failed_result u k msg =
     \<lparr>url = u, load_time_ms = 30000, status = Error, error_message = msg,
      navigation_timing = Some None, timestamp = 1700000000, run_number = Some k,
      config = Some (config_items cfg_two_runs)\<rparr>"

text \<open>
  Three URLs out of order: three successes of 100, 200 and 300 ms, one success, and
  two failures, the second without a message.
\<close>

definition results_mixed :: "run_result list" where
  "results_mixed =
     [failed_result ''c.example'' 1
        (Some (Some ''Timeout after 30 seconds waiting for page load (Combined strategy).'')),
      success_result ''a.example'' 1 100,
      success_result ''b.example'' 1 250,
      success_result ''a.example'' 2 200,
      failed_result ''c.example'' 2 None,
      success_result ''a.example'' 3 300]"

text \<open>A settings file that holds the JSON array \<^verbatim>\<open>[]\<close>.\<close>

definition fs_array :: fs_state where
  "fs_array = \<lparr>settings_file = Some (Json_text (PList [])),
     read_error = None, write_error = None\<rparr>"

text \<open>A settings file that holds the JSON value \<^verbatim>\<open>null\<close>.\<close>

definition fs_null :: fs_state where
  "fs_null = \<lparr>settings_file = Some (Json_text PNone),
     read_error = None, write_error = None\<rparr>"

text \<open>A settings file whose first byte, 0xff, is not UTF-8 text.\<close>

definition fs_undecodable :: fs_state where
  "fs_undecodable =
     \<lparr>settings_file = Some (Load_raises (Exn UnicodeDecodeError
          (CHR 0x27 # ''utf-8' codec can't decode byte 0xff in position 0: invalid start byte''))),
      read_error = None, write_error = None\<rparr>"

text \<open>A settings file of 100000 opening brackets: JSON text nested too deep.\<close>

definition fs_too_deep :: fs_state where
  "fs_too_deep =
     \<lparr>settings_file = Some (Load_raises (Exn RecursionError
          ''maximum recursion depth exceeded while decoding a JSON array from a unicode string'')),
      read_error = None, write_error = None\<rparr>"

section \<open>Facts about the shared values\<close>

lemma isinstance_Exception: "isinstance e Exception"
  by (simp add: isinstance_def)

lemma str_contains_iff_sublist: "str_contains needle hay \<longleftrightarrow> sublist needle hay"
  by (induction hay) (auto simp: sublist_Cons_right)

lemma str_contains_append: "str_contains needle (pre @ needle @ post)"
  by (simp add: str_contains_iff_sublist)

declare str_nat.simps [simp del]

section \<open>The timing sampler\<close>

lemma handle_exn_returns: "\<exists>r. handle_exn timeout ws e res = Inr r"
  by (simp add: handle_exn_def isinstance_Exception)

lemma get_detailed_timing_returns: "\<exists>r. get_detailed_timing pe res = Inr r"
  by (simp add: get_detailed_timing_def isinstance_Exception Let_def
      split: sum.split option.split)

lemma get_detailed_timing_keeps:
  "get_detailed_timing pe res = Inr r \<Longrightarrow>
     status r = status res \<and> load_time_ms r = load_time_ms res \<and> url r = url res
     \<and> error_message r = error_message res \<and> timestamp r = timestamp res"
  by (auto simp: get_detailed_timing_def isinstance_Exception Let_def
      split: sum.splits option.splits if_splits)

lemma measure_load_time_returns: "\<exists>r. measure_load_time pe u timeout ws = Inr r"
proof (cases "try_body pe ws (initial_results pe u)")
  case (Pair res ex)
  show ?thesis
  proof (cases ex)
    case None
    with Pair show ?thesis by (simp add: measure_load_time_def)
  next
    case (Some e)
    obtain r where "handle_exn timeout ws e res = Inr r"
      using handle_exn_returns by blast
    with Pair Some show ?thesis by (simp add: measure_load_time_def)
  qed
qed

lemma measure_loaded:
  assumes "get_outcome pe = None" and "wait_for_load pe ws = None"
  shows "\<exists>r. measure_load_time pe u timeout ws = Inr r \<and> status r = Success
     \<and> load_time_ms r = (t_end pe - t_start pe) * 1000 \<and> url r = u
     \<and> error_message r = Some None
     \<and> get_detailed_timing pe ((initial_results pe u)\<lparr>load_time_ms := (t_end pe - t_start pe) * 1000,
                                status := Success\<rparr>) = Inr r"
proof -
  let ?res1 = "(initial_results pe u)\<lparr>load_time_ms := (t_end pe - t_start pe) * 1000,
                                status := Success\<rparr>"
  obtain r where r: "get_detailed_timing pe ?res1 = Inr r"
    using get_detailed_timing_returns by blast
  have k: "status r = Success" "load_time_ms r = (t_end pe - t_start pe) * 1000" "url r = u"
     "error_message r = Some None"
    using get_detailed_timing_keeps[OF r] by (simp_all add: initial_results_def)
  have "measure_load_time pe u timeout ws = Inr (finally_block pe r)"
    using assms r by (simp add: measure_load_time_def try_body_def Let_def)
  moreover have "finally_block pe r = r"
    using k by (simp add: finally_block_def)
  ultimately show ?thesis using k r by simp
qed

lemma measure_failed:
  assumes "get_outcome pe = Some e \<or> (get_outcome pe = None \<and> wait_for_load pe ws = Some e)"
  shows "\<exists>r m. measure_load_time pe u timeout ws = Inr r \<and> status r = Error \<and> url r = u
     \<and> error_message r = Some (Some m)"
  using assms
  by (auto simp: measure_load_time_def try_body_def handle_exn_def finally_block_def
      initial_results_def isinstance_Exception)

text \<open>
  Claim C4. When the bounded wait of \<^verbatim>\<open>measure_load_time\<close> times out (navigation
  returned, the wait selected by the strategy raised a \<^verbatim>\<open>TimeoutException\<close>), the
  function returns a result with status Error whose message is
  \<^verbatim>\<open>Timeout after <timeout> seconds waiting for page load (<strategy> strategy).\<close>,
  so it names the timeout and the strategy (which is then one of the three recognised
  ones), and whose load time is the elapsed time until the failure, which is not the
  sentinel \<open>-1\<close> since the performance counter does not run backwards.
\<close>

theorem measure_timeout_names_timeout_and_strategy:
  assumes "get_outcome pe = None"
    and "wait_for_load pe ws = Some e"
    and "isinstance e TimeoutException"
    and "t_start pe \<le> t_end pe"
  shows "\<exists>r msg. measure_load_time pe u timeout ws = Inr r
           \<and> status r = Error
           \<and> error_message r = Some (Some msg)
           \<and> msg = ''Timeout after '' @ str_int timeout
                    @ '' seconds waiting for page load ('' @ ws @ '' strategy).''
           \<and> str_contains (str_int timeout) msg
           \<and> str_contains ws msg
           \<and> (ws = ''ReadyState'' \<or> ws = ''LoadEventEnd'' \<or> ws = ''Combined'')
           \<and> load_time_ms r = (t_end pe - t_start pe) * 1000
           \<and> 0 \<le> load_time_ms r \<and> load_time_ms r \<noteq> - 1"
proof -
  let ?msg = "''Timeout after '' @ str_int timeout
                    @ '' seconds waiting for page load ('' @ ws @ '' strategy).''"
  let ?r = "(initial_results pe u)\<lparr>load_time_ms := (t_end pe - t_start pe) * 1000,
         error_message := Some (Some ?msg)\<rparr>"
  have m: "measure_load_time pe u timeout ws = Inr ?r"
    using assms(1-3)
    by (simp add: measure_load_time_def try_body_def handle_exn_def finally_block_def
        initial_results_def)
  have c1: "str_contains (str_int timeout) ?msg"
    using str_contains_append[of "str_int timeout" "''Timeout after ''"] by simp
  have c2: "str_contains ws ?msg"
    using str_contains_append[of ws "''Timeout after '' @ str_int timeout
                    @ '' seconds waiting for page load (''" "'' strategy).''"] by simp
  have ws: "ws = ''ReadyState'' \<or> ws = ''LoadEventEnd'' \<or> ws = ''Combined''"
  proof (rule ccontr)
    assume "\<not> ?thesis"
    then have "wait_for_load pe ws = Some (Exn ValueError (''Invalid wait_strategy: '' @ ws))"
      by (simp add: wait_for_load_def)
    with assms(2,3) show False by (auto simp: isinstance_def)
  qed
  have t: "0 \<le> (t_end pe - t_start pe) * 1000" using assms(4) by simp
  show ?thesis
    apply (rule exI[of _ ?r], rule exI[of _ ?msg])
    using m c1 c2 ws t by (simp add: initial_results_def)
qed

text \<open>
  The Combined strategy with a ready-state wait that times out after 30 seconds.
\<close>

theorem measure_timeout_witness:
  "get_outcome pe_ready_timeout = None
   \<and> wait_for_load pe_ready_timeout ''Combined'' = Some (Exn TimeoutException ''Message: '')
   \<and> isinstance (Exn TimeoutException ''Message: '') TimeoutException
   \<and> t_start pe_ready_timeout \<le> t_end pe_ready_timeout
   \<and> (\<exists>r. measure_load_time pe_ready_timeout ''https://example.org'' 30 ''Combined'' = Inr r
         \<and> status r = Error
         \<and> error_message r
             = Some (Some ''Timeout after 30 seconds waiting for page load (Combined strategy).'')
         \<and> str_contains ''Combined'' (the (the (error_message r)))
         \<and> str_contains ''30'' (the (the (error_message r)))
         \<and> load_time_ms r = 30000)"
proof -
  have s: "str_int 30 = ''30''" by code_simp
  have h1: "get_outcome pe_ready_timeout = None" by (simp add: pe_ready_timeout_def)
  have h2: "wait_for_load pe_ready_timeout ''Combined'' = Some (Exn TimeoutException ''Message: '')"
    by (simp add: pe_ready_timeout_def wait_for_load_def)
  have h3: "isinstance (Exn TimeoutException ''Message: '') TimeoutException"
    by (simp add: isinstance_def)
  have h4: "t_start pe_ready_timeout \<le> t_end pe_ready_timeout" by (simp add: pe_ready_timeout_def)
  from measure_timeout_names_timeout_and_strategy[OF h1 h2 h3 h4, of "''https://example.org''" 30]
  obtain r where r: "measure_load_time pe_ready_timeout ''https://example.org'' 30 ''Combined'' = Inr r"
    "status r = Error"
    "error_message r = Some (Some (''Timeout after '' @ str_int 30
                    @ '' seconds waiting for page load ('' @ ''Combined'' @ '' strategy).''))"
    "str_contains (str_int 30) (''Timeout after '' @ str_int 30
                    @ '' seconds waiting for page load ('' @ ''Combined'' @ '' strategy).'')"
    "str_contains ''Combined'' (''Timeout after '' @ str_int 30
                    @ '' seconds waiting for page load ('' @ ''Combined'' @ '' strategy).'')"
    "load_time_ms r = (t_end pe_ready_timeout - t_start pe_ready_timeout) * 1000"
    by blast
  have "load_time_ms r = 30000" using r(6) by (simp add: pe_ready_timeout_def)
  with r h1 h2 h3 h4 show ?thesis by (simp add: s)
qed

text \<open>
  Claim C5. \<^verbatim>\<open>measure_load_time\<close> returns a result for every input and every
  outcome of the session: no exception leaves it. The result is a Success exactly when
  navigation and the wait both return; every Error result carries a message; and when
  the page loaded but the extraction of the timing breakdown raised, the status stays
  Success, the load time is kept, and only \<^verbatim>\<open>navigation_timing\<close> records the error.
\<close>

theorem measure_load_time_always_returns:
  "\<exists>r. measure_load_time pe u timeout ws = Inr r
      \<and> url r = u
      \<and> ((status r = Success) = (get_outcome pe = None \<and> wait_for_load pe ws = None))
      \<and> (status r = Error \<longrightarrow> (\<exists>m. error_message r = Some (Some m)))
      \<and> (\<forall>e. get_outcome pe = None \<and> wait_for_load pe ws = None \<and> timing_script pe = Inl e
            \<longrightarrow> status r = Success
               \<and> navigation_timing r = Some (Some (NavError (exn_msg e)))
               \<and> load_time_ms r = (t_end pe - t_start pe) * 1000
               \<and> error_message r = Some None)"
proof (cases "get_outcome pe = None \<and> wait_for_load pe ws = None")
  case True
  then obtain r where r: "measure_load_time pe u timeout ws = Inr r" "status r = Success"
    "load_time_ms r = (t_end pe - t_start pe) * 1000" "url r = u" "error_message r = Some None"
    "get_detailed_timing pe ((initial_results pe u)\<lparr>load_time_ms := (t_end pe - t_start pe) * 1000,
                                status := Success\<rparr>) = Inr r"
    using measure_loaded[of pe ws u timeout] by blast
  have "navigation_timing r = Some (Some (NavError (exn_msg e)))" if "timing_script pe = Inl e" for e
    using r(6) that by (auto simp: get_detailed_timing_def isinstance_Exception)
  then show ?thesis using r True by auto
next
  case False
  then obtain e where "get_outcome pe = Some e \<or> (get_outcome pe = None \<and> wait_for_load pe ws = Some e)"
    by (cases "get_outcome pe"; cases "wait_for_load pe ws") auto
  from measure_failed[OF this, of u timeout]
  obtain r m where "measure_load_time pe u timeout ws = Inr r" "status r = Error" "url r = u"
     "error_message r = Some (Some m)" by blast
  then show ?thesis using False by auto
qed

theorem measure_load_time_always_returns_witness:
  "\<exists>r. measure_load_time pe_timing_error ''https://example.org'' 30 ''ReadyState'' = Inr r
      \<and> get_outcome pe_timing_error = None
      \<and> wait_for_load pe_timing_error ''ReadyState'' = None
      \<and> timing_script pe_timing_error = Inl (Exn WebDriverException ''Message: javascript error'')
      \<and> status r = Success
      \<and> navigation_timing r = Some (Some (NavError ''Message: javascript error''))
      \<and> load_time_ms r = 2000"
proof -
  have h: "get_outcome pe_timing_error = None" "wait_for_load pe_timing_error ''ReadyState'' = None"
    "timing_script pe_timing_error = Inl (Exn WebDriverException ''Message: javascript error'')"
    by (simp_all add: pe_timing_error_def wait_for_load_def)
  obtain r where r: "measure_load_time pe_timing_error ''https://example.org'' 30 ''ReadyState'' = Inr r"
    and imp: "\<forall>e. get_outcome pe_timing_error = None \<and> wait_for_load pe_timing_error ''ReadyState'' = None
            \<and> timing_script pe_timing_error = Inl e
            \<longrightarrow> status r = Success
               \<and> navigation_timing r = Some (Some (NavError (exn_msg e)))
               \<and> load_time_ms r = (t_end pe_timing_error - t_start pe_timing_error) * 1000
               \<and> error_message r = Some None"
    using measure_load_time_always_returns[of pe_timing_error "''https://example.org''" 30 "''ReadyState''"]
    by blast
  from imp h have "status r = Success \<and> navigation_timing r = Some (Some (NavError ''Message: javascript error''))
     \<and> load_time_ms r = (t_end pe_timing_error - t_start pe_timing_error) * 1000"
    by auto
  moreover have "(t_end pe_timing_error - t_start pe_timing_error) * 1000 = 2000"
    by (simp add: pe_timing_error_def)
  ultimately show ?thesis using r h by auto
qed

text \<open>
  Claim C10, as stated, fails: with an unrecognised strategy and a navigation that
  raises, the handler of \<^verbatim>\<open>WebDriverException\<close> writes the message, which does
  not contain \<^verbatim>\<open>Invalid wait_strategy\<close> (the strategy is only looked at after
  \<^verbatim>\<open>driver.get\<close> has returned).
\<close>

theorem invalid_strategy_message_counterexample:
  "''Fastest'' \<noteq> ''ReadyState'' \<and> ''Fastest'' \<noteq> ''LoadEventEnd'' \<and> ''Fastest'' \<noteq> ''Combined''
   \<and> map_sum id error_message (measure_load_time pe_nav_error ''https://example.org'' 30 ''Fastest'')
       = Inr (Some (Some ''WebDriver error: Message: net::ERR_NAME_NOT_RESOLVED''))
   \<and> \<not> str_contains ''Invalid wait_strategy''
          ''WebDriver error: Message: net::ERR_NAME_NOT_RESOLVED''"
  by (simp add: measure_load_time_def try_body_def handle_exn_def finally_block_def
        initial_results_def pe_nav_error_def isinstance_def)

text \<open>
  Claim C10, amended. For every unrecognised strategy \<^verbatim>\<open>measure_load_time\<close>
  returns a result with status Error and raises nothing; when the navigation returned,
  its message is \<^verbatim>\<open>Unexpected error: Invalid wait_strategy: <strategy>\<close>.
\<close>

theorem invalid_strategy_is_error_result:
  assumes "ws \<noteq> ''ReadyState''" and "ws \<noteq> ''LoadEventEnd''" and "ws \<noteq> ''Combined''"
  shows "\<exists>r. measure_load_time pe u timeout ws = Inr r
      \<and> status r = Error
      \<and> (get_outcome pe = None \<longrightarrow>
           error_message r = Some (Some (''Unexpected error: Invalid wait_strategy: '' @ ws))
           \<and> str_contains ''Invalid wait_strategy''
                (''Unexpected error: Invalid wait_strategy: '' @ ws))"
proof -
  have w: "wait_for_load pe ws = Some (Exn ValueError (''Invalid wait_strategy: '' @ ws))"
    using assms by (simp add: wait_for_load_def)
  have c: "str_contains ''Invalid wait_strategy'' (''Unexpected error: Invalid wait_strategy: '' @ ws)"
    using str_contains_append[of "''Invalid wait_strategy''" "''Unexpected error: ''" "'': '' @ ws"]
    by simp
  show ?thesis
  proof (cases "get_outcome pe")
    case None
    with w have "measure_load_time pe u timeout ws =
      Inr ((initial_results pe u)\<lparr>load_time_ms := (t_end pe - t_start pe) * 1000,
         error_message := Some (Some (''Unexpected error: Invalid wait_strategy: '' @ ws))\<rparr>)"
      by (simp add: measure_load_time_def try_body_def handle_exn_def finally_block_def
        initial_results_def isinstance_def)
    then show ?thesis using c None by (simp add: initial_results_def)
  next
    case (Some e)
    then have "get_outcome pe = Some e \<or> (get_outcome pe = None \<and> wait_for_load pe ws = Some e)"
      by simp
    from measure_failed[OF this, of u timeout] Some show ?thesis by auto
  qed
qed

theorem invalid_strategy_is_error_result_witness:
  "''Fastest'' \<noteq> ''ReadyState'' \<and> ''Fastest'' \<noteq> ''LoadEventEnd'' \<and> ''Fastest'' \<noteq> ''Combined''
   \<and> get_outcome pe_loaded = None
   \<and> (\<exists>r. measure_load_time pe_loaded ''https://example.org'' 30 ''Fastest'' = Inr r
        \<and> status r = Error
        \<and> error_message r = Some (Some ''Unexpected error: Invalid wait_strategy: Fastest''))"
proof -
  have g: "get_outcome pe_loaded = None" by (simp add: pe_loaded_def)
  have n: "''Fastest'' \<noteq> ''ReadyState''" "''Fastest'' \<noteq> ''LoadEventEnd''" "''Fastest'' \<noteq> ''Combined''"
    by simp_all
  from invalid_strategy_is_error_result[OF n, of pe_loaded "''https://example.org''" 30] g
  show ?thesis by auto
qed

section \<open>The run orchestrator\<close>

lemma act_simps [simp]:
  "trace (act a st) = trace st @ [a]"
  "current_step (act a st) = current_step st"
  "driver (act a st) = driver st"
  by (simp_all add: act_def)

lemma emit_simps [simp]:
  "trace (emit s st) = trace st @ [Emit s]"
  "current_step (emit s st) = current_step st"
  "driver (emit s st) = driver st"
  by (simp_all add: emit_def)

lemma check_eq:
  "check env st = (running_at env (length (trace st)),
                   act (Check (running_at env (length (trace st)))) st)"
  by (simp add: check_def Let_def)

lemma run_body_stopped:
  "\<not> running_at env (length (trace st)) \<Longrightarrow>
     run_body env cfg tsteps i u rn st = (Broke, act (Check False) st)"
  by (simp add: run_body_def check_eq)

lemma run_body_trace:
  assumes "running_at env (length (trace st))"
  shows "\<exists>m. measure_load_time (page env i rn) u (timeout_seconds cfg) (wait_strategy cfg) = Inr m
     \<and> (let started = [Check True, Emit (Progress (current_step st + 1) tsteps),
              Emit (Status_update (''Running test '' @ str_nat (rn + 1) @ ''/''
                     @ str_nat (runs_per_url cfg) @ '' for '' @ u @ ''...'')),
              Measured i rn m]
        in if running_at env (length (trace st) + 4)
           then fst (run_body env cfg tsteps i u rn st) = Completed
             \<and> trace (snd (run_body env cfg tsteps i u rn st)) =
                 trace st @ started @ [Check True, Emit (Result_ready (tag_result cfg rn m)),
                                       Reset_call i rn]
           else fst (run_body env cfg tsteps i u rn st) = Broke
             \<and> trace (snd (run_body env cfg tsteps i u rn st)) =
                 trace st @ started @ [Check False])
     \<and> current_step (snd (run_body env cfg tsteps i u rn st)) = current_step st + 1
     \<and> driver (snd (run_body env cfg tsteps i u rn st)) = driver st"
proof -
  obtain m where m: "measure_load_time (page env i rn) u (timeout_seconds cfg) (wait_strategy cfg) = Inr m"
    using measure_load_time_returns by blast
  show ?thesis
    using assms m by (simp add: run_body_def check_eq Let_def eval_nat_numeral)
qed


lemma extends_refl: "extends Q st st"
  by (simp add: extends_def)

lemma extends_trans: "extends Q st st' \<Longrightarrow> extends Q st' st'' \<Longrightarrow> extends Q st st''"
  by (auto simp: extends_def)

lemma extends_act: "Q a \<Longrightarrow> extends Q st (act a st)"
  by (simp add: extends_def)

lemma extends_emit: "Q (Emit s) \<Longrightarrow> extends Q st (emit s st)"
  by (simp add: extends_def)

lemma extends_same_trace: "trace st' = trace st \<Longrightarrow> extends Q st st'"
  by (simp add: extends_def)

lemma extends_snoc: "extends Q st st' \<Longrightarrow> trace st'' = trace st' @ [a] \<Longrightarrow> Q a \<Longrightarrow> extends Q st st''"
  by (auto simp: extends_def)

lemma for_each_extends:
  assumes "\<And>x st. extends Q st (snd (body x st))"
  shows "extends Q st (snd (for_each body xs st))"
proof (induction xs arbitrary: st)
  case Nil
  show ?case by (simp add: extends_refl)
next
  case (Cons x xs)
  show ?case
    using assms[of st x] Cons[of "snd (body x st)"]
    by (auto simp: Let_def intro: extends_trans)
qed

lemma for_each_exit:
  assumes "\<And>x st. fst (body x st) = Completed \<or> fst (body x st) = Broke"
  shows "fst (for_each body xs st) = Completed \<or> fst (for_each body xs st) = Broke"
proof (induction xs arbitrary: st)
  case Nil
  show ?case by simp
next
  case (Cons x xs)
  show ?case using assms[of x st] Cons[of "snd (body x st)"] by (auto simp: Let_def)
qed

lemma run_body_exit:
  "fst (run_body env cfg tsteps i u rn st) = Completed \<or> fst (run_body env cfg tsteps i u rn st) = Broke"
proof (cases "running_at env (length (trace st))")
  case True
  from run_body_trace[OF True, of i rn u cfg tsteps] show ?thesis
    by (auto simp: Let_def split: if_splits)
next
  case False
  then show ?thesis by (simp add: run_body_stopped)
qed

lemma run_body_internal: "extends internal st (snd (run_body env cfg tsteps i u rn st))"
proof (cases "running_at env (length (trace st))")
  case True
  from run_body_trace[OF True, of i rn u cfg tsteps] show ?thesis
    by (auto simp: Let_def extends_def internal_def split: if_splits)
next
  case False
  then show ?thesis by (simp add: run_body_stopped extends_def internal_def)
qed

lemma runs_loop_exit:
  "fst (runs_loop env cfg tsteps i u st) = Completed \<or> fst (runs_loop env cfg tsteps i u st) = Broke"
  unfolding runs_loop_def by (rule for_each_exit) (rule run_body_exit)

lemma runs_loop_internal: "extends internal st (snd (runs_loop env cfg tsteps i u st))"
  unfolding runs_loop_def by (rule for_each_extends) (rule run_body_internal)

lemma fail_loop_trace:
  "trace (fail_loop env cfg tsteps i u e rs st) =
     trace st @ concat (map (\<lambda>(k, r). [Emit (Progress k tsteps),
                                       Emit (Result_ready (error_result env cfg i u e r))])
                          (enumerate (current_step st + 1) rs))
   \<and> current_step (fail_loop env cfg tsteps i u e rs st) = current_step st + length rs"
  by (induction rs arbitrary: st) (simp_all add: Let_def)

lemma setup_failed_trace:
  "trace (setup_failed env cfg tsteps i u e st) =
     trace st @ [Emit (Status_update (''Fatal Error initializing driver for '' @ u @ '': '' @ exn_msg e)),
                 Emit (Error_occurred (''Fatal Error initializing driver for '' @ u @ '': '' @ exn_msg e))]
       @ concat (map (\<lambda>(k, r). [Emit (Progress k tsteps),
                                Emit (Result_ready (error_result env cfg i u e r))])
                   (enumerate (current_step st + 1) [0..<runs_per_url cfg]))
   \<and> current_step (setup_failed env cfg tsteps i u e st) = current_step st + runs_per_url cfg"
  by (simp add: setup_failed_def Let_def fail_loop_trace)

lemma setup_failed_internal: "extends internal st (setup_failed env cfg tsteps i u e st)"
  by (auto simp: extends_def setup_failed_trace internal_def list_all_iff in_set_enumerate_eq)

lemma quit_driver_internal: "extends internal st (quit_driver env i u st)"
  by (auto simp: quit_driver_def extends_def internal_def Let_def split: option.splits)

lemma check_internal: "extends internal st (snd (check env st))"
  by (simp add: check_eq extends_def internal_def)

lemma test_url_eq:
  assumes "runs_loop env cfg tsteps i u (st5_of cfg u d st) = (ex, st6)"
    and "ex = Completed \<or> ex = Broke"
  shows "test_url env cfg tsteps i u d st =
     (if running_at env (length (trace (quit_driver env i u st6))) then Completed else Broke,
      act (Check (running_at env (length (trace (quit_driver env i u st6)))))
        (quit_driver env i u st6))"
proof -
  from assms(2) show ?thesis
  proof
    assume "ex = Completed"
    with assms(1) show ?thesis
      by (simp add: test_url_def Let_def check_eq st5_of_def)
  next
    assume "ex = Broke"
    with assms(1) show ?thesis
      by (simp add: test_url_def Let_def check_eq st5_of_def)
  qed
qed

lemma test_url_cases:
  obtains ex st6 where "runs_loop env cfg tsteps i u (st5_of cfg u d st) = (ex, st6)"
    and "ex = Completed \<or> ex = Broke"
    and "test_url env cfg tsteps i u d st =
     (if running_at env (length (trace (quit_driver env i u st6))) then Completed else Broke,
      act (Check (running_at env (length (trace (quit_driver env i u st6)))))
        (quit_driver env i u st6))"
proof -
  obtain ex st6 where r: "runs_loop env cfg tsteps i u (st5_of cfg u d st) = (ex, st6)"
    by (cases "runs_loop env cfg tsteps i u (st5_of cfg u d st)")
  have ex: "ex = Completed \<or> ex = Broke"
    using runs_loop_exit[of env cfg tsteps i u "st5_of cfg u d st"] r by simp
  show ?thesis using that[OF r ex test_url_eq[OF r ex]] .
qed

lemma test_url_exit:
  "fst (test_url env cfg tsteps i u d st) = Completed \<or> fst (test_url env cfg tsteps i u d st) = Broke"
  by (rule test_url_cases[of env cfg tsteps i u d st]) simp

lemma test_url_internal: "extends internal st (snd (test_url env cfg tsteps i u d st))"
proof (rule test_url_cases[of env cfg tsteps i u d st])
  fix ex st6
  assume r: "runs_loop env cfg tsteps i u (st5_of cfg u d st) = (ex, st6)"
    and eq: "test_url env cfg tsteps i u d st =
     (if running_at env (length (trace (quit_driver env i u st6))) then Completed else Broke,
      act (Check (running_at env (length (trace (quit_driver env i u st6)))))
        (quit_driver env i u st6))"
  have e1: "extends internal st (st5_of cfg u d st)" by (simp add: extends_def internal_def st5_of_def)
  have e2: "extends internal (st5_of cfg u d st) st6"
    using runs_loop_internal[of "st5_of cfg u d st" env cfg tsteps i u] r by simp
  have e3: "extends internal st6 (quit_driver env i u st6)" by (rule quit_driver_internal)
  have e4: "extends internal (quit_driver env i u st6)
      (act (Check (running_at env (length (trace (quit_driver env i u st6))))) (quit_driver env i u st6))"
    by (rule extends_act) (simp add: internal_def)
  show ?thesis unfolding eq snd_conv
    by (rule extends_trans[OF extends_trans[OF extends_trans[OF e1 e2] e3] e4])
qed

lemma url_body_exit:
  "fst (url_body env cfg tsteps iu st) = Completed \<or> fst (url_body env cfg tsteps iu st) = Broke"
  using test_url_exit[of env cfg tsteps "fst iu" "snd iu"]
  by (auto simp: url_body_def check_eq Let_def isinstance_Exception split: sum.splits)

lemma url_body_internal: "extends internal st (snd (url_body env cfg tsteps iu st))"
proof (cases "running_at env (length (trace st))")
  case False
  then show ?thesis by (simp add: url_body_def check_eq Let_def extends_def internal_def)
next
  case True
  let ?st3 = "act (Setup_call (fst iu)) (emit (Status_update (''Initializing driver for URL: '' @ snd iu @ ''...''))
                    ((act (Check True) st)\<lparr>driver := None\<rparr>))"
  have e1: "extends internal st ?st3" by (simp add: extends_def internal_def)
  show ?thesis
  proof (cases "setup_result env (fst iu)")
    case (Inl e)
    have "snd (url_body env cfg tsteps iu st) = setup_failed env cfg tsteps (fst iu) (snd iu) e ?st3"
      using True Inl by (simp add: url_body_def check_eq Let_def isinstance_Exception)
    then show ?thesis using extends_trans[OF e1 setup_failed_internal] by simp
  next
    case (Inr d)
    have "snd (url_body env cfg tsteps iu st) = snd (test_url env cfg tsteps (fst iu) (snd iu) d ?st3)"
      using True Inr by (simp add: url_body_def check_eq Let_def)
    then show ?thesis using extends_trans[OF e1 test_url_internal] by simp
  qed
qed

lemma urls_loop_exit:
  "fst (urls_loop env cfg tsteps urls st) = Completed \<or> fst (urls_loop env cfg tsteps urls st) = Broke"
  unfolding urls_loop_def by (rule for_each_exit) (rule url_body_exit)

lemma urls_loop_internal: "extends internal st (snd (urls_loop env cfg tsteps urls st))"
  unfolding urls_loop_def by (rule for_each_extends) (rule url_body_internal)

lemma dns_phase_exit:
  "fst (dns_phase env st) = Completed"
  by (simp add: dns_phase_def Let_def isinstance_Exception split: sum.splits)

lemma dns_phase_internal: "extends internal st (snd (dns_phase env st))"
  by (simp add: dns_phase_def Let_def isinstance_Exception extends_def internal_def split: sum.splits)

lemma browse_phase_finished:
  assumes "list_all internal (trace st)"
  shows "\<exists>pre. trace (browse_phase env urls cfg st) = pre @ [Emit Finished] \<and> list_all internal pre"
proof (cases "running_at env (length (trace st))")
  case False
  then show ?thesis using assms by (simp add: browse_phase_def check_eq Let_def internal_def)
next
  case True
  let ?st2 = "emit (Status_update ''Starting Browse speed tests...'') (act (Check True) st)"
  obtain ex st3 where r: "urls_loop env cfg (length urls * runs_per_url cfg) urls ?st2 = (ex, st3)"
    by (cases "urls_loop env cfg (length urls * runs_per_url cfg) urls ?st2")
  have ex: "ex = Completed \<or> ex = Broke"
    using urls_loop_exit[of env cfg "length urls * runs_per_url cfg" urls ?st2] r by simp
  have "extends internal ?st2 st3"
    using urls_loop_internal[of ?st2 env cfg "length urls * runs_per_url cfg" urls] r by simp
  moreover have "list_all internal (trace ?st2)" using assms by (simp add: internal_def)
  ultimately have i3: "list_all internal (trace st3)" by (auto simp: extends_def)
  show ?thesis
    using True r ex i3
    by (auto simp: browse_phase_def check_eq Let_def internal_def)
qed

lemma run_finished:
  "\<exists>pre. trace (run env urls cfg) = pre @ [Emit Finished] \<and> list_all internal pre"
proof (cases "run_dns_benchmark cfg")
  case False
  then show ?thesis
    using browse_phase_finished[of initial_state env urls cfg] by (simp add: run_def initial_state_def)
next
  case True
  obtain ex st where r: "dns_phase env initial_state = (ex, st)" by (cases "dns_phase env initial_state")
  have "ex = Completed" using dns_phase_exit[of env initial_state] r by simp
  moreover have "list_all internal (trace st)"
    using dns_phase_internal[of initial_state env] r by (simp add: extends_def initial_state_def)
  ultimately show ?thesis
    using True r browse_phase_finished[of st env urls cfg] by (simp add: run_def)
qed


lemma results_of_append [simp]: "results_of (xs @ ys) = results_of xs @ results_of ys"
  by (induction xs rule: results_of.induct) simp_all


lemma running_at_never_stopped [simp]: "stop_at env = None \<Longrightarrow> running_at env n"
  by (simp add: running_at_def)

subsection \<open>Runs without a stop request\<close>

lemma for_each_results:
  assumes "\<And>x st. x \<in> set xs \<Longrightarrow> fst (body x st) = Completed
             \<and> results_of (trace (snd (body x st))) = results_of (trace st) @ f x"
  shows "fst (for_each body xs st) = Completed
     \<and> results_of (trace (snd (for_each body xs st))) = results_of (trace st) @ concat (map f xs)"
  using assms
proof (induction xs arbitrary: st)
  case Nil
  show ?case by simp
next
  case (Cons x xs)
  have b: "fst (body x st) = Completed"
    "results_of (trace (snd (body x st))) = results_of (trace st) @ f x"
    using Cons.prems[of x st] by simp_all
  have "fst (for_each body xs (snd (body x st))) = Completed
     \<and> results_of (trace (snd (for_each body xs (snd (body x st)))))
         = results_of (trace (snd (body x st))) @ concat (map f xs)"
    using Cons.IH[of "snd (body x st)"] Cons.prems by simp
  with b show ?case by (simp add: Let_def)
qed

lemma run_body_results:
  assumes "stop_at env = None"
  shows "fst (run_body env cfg tsteps i u rn st) = Completed
     \<and> results_of (trace (snd (run_body env cfg tsteps i u rn st)))
         = results_of (trace st) @ run_results env cfg i u rn"
  using run_body_trace[of env st i rn u cfg tsteps] assms
  by (auto simp: Let_def run_results_def)

lemma runs_loop_results:
  assumes "stop_at env = None"
  shows "fst (runs_loop env cfg tsteps i u st) = Completed
     \<and> results_of (trace (snd (runs_loop env cfg tsteps i u st)))
         = results_of (trace st) @ concat (map (run_results env cfg i u) [0..<runs_per_url cfg])"
  unfolding runs_loop_def
  by (rule for_each_results) (rule run_body_results[OF assms])

lemma results_of_fail_block:
  "results_of (concat (map (\<lambda>(k, r). [Emit (Progress k tsteps), Emit (Result_ready (g r))])
                          (enumerate n rs))) = map g rs"
  by (induction rs arbitrary: n) simp_all

lemma quit_driver_results: "results_of (trace (quit_driver env i u st)) = results_of (trace st)"
  by (simp add: quit_driver_def Let_def split: option.splits)

lemma url_body_results:
  assumes "stop_at env = None"
  shows "fst (url_body env cfg tsteps iu st) = Completed
     \<and> results_of (trace (snd (url_body env cfg tsteps iu st)))
         = results_of (trace st) @ url_results env cfg iu"
proof (cases "setup_result env (fst iu)")
  case (Inl e)
  then show ?thesis using assms
    by (simp add: url_body_def check_eq Let_def isinstance_Exception url_results_def
        setup_failed_trace results_of_fail_block)
next
  case (Inr d)
  let ?st3 = "act (Setup_call (fst iu)) (emit (Status_update (''Initializing driver for URL: '' @ snd iu @ ''...''))
                    ((act (Check True) st)\<lparr>driver := None\<rparr>))"
  have u: "url_body env cfg tsteps iu st = test_url env cfg tsteps (fst iu) (snd iu) d ?st3"
    using assms Inr by (simp add: url_body_def check_eq Let_def)
  show ?thesis
  proof (rule test_url_cases[of env cfg tsteps "fst iu" "snd iu" d ?st3])
    fix ex st6
    assume r: "runs_loop env cfg tsteps (fst iu) (snd iu) (st5_of cfg (snd iu) d ?st3) = (ex, st6)"
      and eq: "test_url env cfg tsteps (fst iu) (snd iu) d ?st3 =
       (if running_at env (length (trace (quit_driver env (fst iu) (snd iu) st6))) then Completed else Broke,
        act (Check (running_at env (length (trace (quit_driver env (fst iu) (snd iu) st6)))))
          (quit_driver env (fst iu) (snd iu) st6))"
    have "results_of (trace st6) = results_of (trace (st5_of cfg (snd iu) d ?st3))
        @ concat (map (run_results env cfg (fst iu) (snd iu)) [0..<runs_per_url cfg])"
      using runs_loop_results[OF assms, of cfg tsteps "fst iu" "snd iu" "st5_of cfg (snd iu) d ?st3"] r
      by simp
    moreover have "results_of (trace (st5_of cfg (snd iu) d ?st3)) = results_of (trace st)"
      by (simp add: st5_of_def)
    ultimately have res: "results_of (trace st6) = results_of (trace st)
        @ concat (map (run_results env cfg (fst iu) (snd iu)) [0..<runs_per_url cfg])"
      by simp
    show ?thesis unfolding u eq
      using assms Inr res by (simp add: url_results_def quit_driver_results)
  qed
qed

lemma urls_loop_results:
  assumes "stop_at env = None"
  shows "fst (urls_loop env cfg tsteps urls st) = Completed
     \<and> results_of (trace (snd (urls_loop env cfg tsteps urls st)))
         = results_of (trace st) @ concat (map (url_results env cfg) (enumerate 0 urls))"
  unfolding urls_loop_def
  by (rule for_each_results) (rule url_body_results[OF assms])

lemma dns_phase_results: "results_of (trace (snd (dns_phase env st))) = results_of (trace st)"
  by (simp add: dns_phase_def Let_def isinstance_Exception split: sum.splits)

lemma browse_phase_results:
  assumes "stop_at env = None"
  shows "results_of (trace (browse_phase env urls cfg st))
     = results_of (trace st) @ concat (map (url_results env cfg) (enumerate 0 urls))"
proof -
  let ?st2 = "emit (Status_update ''Starting Browse speed tests...'') (act (Check True) st)"
  obtain ex st3 where r: "urls_loop env cfg (length urls * runs_per_url cfg) urls ?st2 = (ex, st3)"
    by (cases "urls_loop env cfg (length urls * runs_per_url cfg) urls ?st2")
  from urls_loop_results[OF assms, of cfg "length urls * runs_per_url cfg" urls ?st2] r
  have "ex = Completed" "results_of (trace st3)
     = results_of (trace st) @ concat (map (url_results env cfg) (enumerate 0 urls))"
    by simp_all
  then show ?thesis using assms r by (simp add: browse_phase_def check_eq Let_def)
qed

lemma run_results_no_stop:
  assumes "stop_at env = None"
  shows "results_of (trace (run env urls cfg)) = concat (map (url_results env cfg) (enumerate 0 urls))"
proof (cases "run_dns_benchmark cfg")
  case False
  then show ?thesis using browse_phase_results[OF assms, of urls cfg initial_state]
    by (simp add: run_def initial_state_def)
next
  case True
  obtain ex st where r: "dns_phase env initial_state = (ex, st)" by (cases "dns_phase env initial_state")
  have "ex = Completed" using dns_phase_exit[of env initial_state] r by simp
  moreover have "results_of (trace st) = []"
    using dns_phase_results[of env initial_state] r by (simp add: initial_state_def)
  ultimately show ?thesis
    using True r browse_phase_results[OF assms, of urls cfg st] by (simp add: run_def)
qed


subsection \<open>After a flag check has seen the stop request\<close>

lemma results_of_suffix_empty: "results_of (xs @ ys) = [] \<Longrightarrow> results_of ys = []"
  by simp

















subsection \<open>The claims about the orchestrator\<close>

lemma measure_load_time_url: "measure_load_time pe u timeout ws = Inr m \<Longrightarrow> url m = u"
proof (cases "get_outcome pe = None \<and> wait_for_load pe ws = None")
  case True
  assume "measure_load_time pe u timeout ws = Inr m"
  with measure_loaded[of pe ws u timeout] True show ?thesis by auto
next
  case False
  assume m: "measure_load_time pe u timeout ws = Inr m"
  from False obtain e where "get_outcome pe = Some e \<or> (get_outcome pe = None \<and> wait_for_load pe ws = Some e)"
    by (cases "get_outcome pe"; cases "wait_for_load pe ws") auto
  from measure_failed[OF this, of u timeout] m show ?thesis by auto
qed

lemma run_results_key:
  "map (\<lambda>r. (url r, run_number r)) (run_results env cfg i u rn) = [(u, Some (rn + 1))]"
proof -
  obtain m where m: "measure_load_time (page env i rn) u (timeout_seconds cfg) (wait_strategy cfg) = Inr m"
    using measure_load_time_returns by blast
  then show ?thesis using measure_load_time_url[OF m] by (simp add: run_results_def tag_result_def)
qed

lemma concat_map_singleton: "concat (map (\<lambda>x. [f x]) xs) = map f xs"
  by (induction xs) simp_all

lemma url_results_key:
  "map (\<lambda>r. (url r, run_number r)) (url_results env cfg iu)
     = map (\<lambda>rn. (snd iu, Some (rn + 1))) [0..<runs_per_url cfg]"
proof (cases "setup_result env (fst iu)")
  case (Inl e)
  then show ?thesis by (simp add: url_results_def error_result_def)
next
  case (Inr d)
  then show ?thesis
    by (simp add: url_results_def map_concat comp_def run_results_key concat_map_singleton)
qed

lemma map_snd_enumerate_fun: "map (\<lambda>iu. f (snd iu)) (enumerate n xs) = map f xs"
  by (induction xs arbitrary: n) simp_all

lemma results_key_no_stop:
  assumes "stop_at env = None"
  shows "map (\<lambda>r. (url r, run_number r)) (results_of (trace (run env urls cfg)))
          = concat (map (\<lambda>u. map (\<lambda>rn. (u, Some (rn + 1))) [0..<runs_per_url cfg]) urls)"
proof -
  have "map (\<lambda>r. (url r, run_number r)) (results_of (trace (run env urls cfg)))
      = concat (map (\<lambda>iu. map (\<lambda>rn. (snd iu, Some (rn + 1))) [0..<runs_per_url cfg]) (enumerate 0 urls))"
    by (simp add: run_results_no_stop[OF assms] map_concat comp_def url_results_key)
  then show ?thesis
    by (simp only: map_snd_enumerate_fun[of "\<lambda>u. map (\<lambda>rn. (u, Some (rn + 1))) [0..<runs_per_url cfg]"])
qed

lemma length_concat_const: "length (concat (map (\<lambda>u. map (f u) [0..<n]) xs)) = n * length xs"
  by (induction xs) simp_all

lemma url_results_success:
  assumes "setup_outcome env (fst iu) = Inr (Some d)"
    and "\<forall>rn < runs_per_url cfg. get_outcome (page env (fst iu) rn) = None
            \<and> wait_for_load (page env (fst iu) rn) (wait_strategy cfg) = None"
  shows "list_all (\<lambda>r. status r = Success) (url_results env cfg iu)"
proof -
  have "list_all (\<lambda>r. status r = Success) (run_results env cfg (fst iu) (snd iu) rn)"
    if "rn < runs_per_url cfg" for rn
  proof -
    from that assms(2) have "get_outcome (page env (fst iu) rn) = None"
      "wait_for_load (page env (fst iu) rn) (wait_strategy cfg) = None" by simp_all
    from measure_loaded[OF this, of "snd iu" "timeout_seconds cfg"]
    show ?thesis by (auto simp: run_results_def tag_result_def)
  qed
  then show ?thesis using assms(1)
    by (auto simp: url_results_def setup_result_def list_all_iff)
qed

lemma finished_last:
  "\<exists>pre. trace (run env urls cfg) = pre @ [Emit Finished] \<and> Emit Finished \<notin> set pre
     \<and> (\<forall>e. Uncaught e \<notin> set pre)
     \<and> results_of pre = results_of (trace (run env urls cfg))"
proof -
  obtain pre where p: "trace (run env urls cfg) = pre @ [Emit Finished]" "list_all internal pre"
    using run_finished by blast
  then have "Emit Finished \<notin> set pre" "\<forall>e. Uncaught e \<notin> set pre"
    by (auto simp: list_all_iff internal_def)
  with p show ?thesis by auto
qed

text \<open>
  Claim C1. Every run ends with the \<^verbatim>\<open>finished\<close> signal, emitted exactly once, as
  the last step and after every result, whatever the collaborators and the stop request
  do. When no stop is requested, the results are exactly \<open>runs_per_url\<close> per URL, in
  the order of the URL list and with run numbers \<open>1..runs_per_url\<close> within each URL,
  \<open>runs_per_url \<times> length urls\<close> in all; when moreover every driver setup and every
  page load succeeds, every result has status Success.
\<close>

theorem run_emits_all_results_then_finished:
  "(\<exists>pre. trace (run env urls cfg) = pre @ [Emit Finished] \<and> Emit Finished \<notin> set pre
       \<and> results_of pre = results_of (trace (run env urls cfg)))
   \<and> (stop_at env = None \<longrightarrow>
        map (\<lambda>r. (url r, run_number r)) (results_of (trace (run env urls cfg)))
          = concat (map (\<lambda>u. map (\<lambda>rn. (u, Some (rn + 1))) [0..<runs_per_url cfg]) urls)
        \<and> length (results_of (trace (run env urls cfg))) = runs_per_url cfg * length urls)
   \<and> (stop_at env = None
        \<and> (\<forall>i < length urls. \<exists>d. setup_outcome env i = Inr (Some d))
        \<and> (\<forall>i < length urls. \<forall>rn < runs_per_url cfg.
               get_outcome (page env i rn) = None
               \<and> wait_for_load (page env i rn) (wait_strategy cfg) = None)
       \<longrightarrow> list_all (\<lambda>r. status r = Success) (results_of (trace (run env urls cfg))))"
proof (intro conjI impI)
  show "\<exists>pre. trace (run env urls cfg) = pre @ [Emit Finished] \<and> Emit Finished \<notin> set pre
       \<and> results_of pre = results_of (trace (run env urls cfg))"
    using finished_last[of env urls cfg] by blast
next
  assume "stop_at env = None"
  then show "map (\<lambda>r. (url r, run_number r)) (results_of (trace (run env urls cfg)))
          = concat (map (\<lambda>u. map (\<lambda>rn. (u, Some (rn + 1))) [0..<runs_per_url cfg]) urls)"
    by (rule results_key_no_stop)
next
  assume s: "stop_at env = None"
  have "length (results_of (trace (run env urls cfg)))
      = length (map (\<lambda>r. (url r, run_number r)) (results_of (trace (run env urls cfg))))" by simp
  also have "\<dots> = runs_per_url cfg * length urls"
    unfolding results_key_no_stop[OF s] by (rule length_concat_const)
  finally show "length (results_of (trace (run env urls cfg))) = runs_per_url cfg * length urls" .
next
  assume a: "stop_at env = None
        \<and> (\<forall>i < length urls. \<exists>d. setup_outcome env i = Inr (Some d))
        \<and> (\<forall>i < length urls. \<forall>rn < runs_per_url cfg.
               get_outcome (page env i rn) = None
               \<and> wait_for_load (page env i rn) (wait_strategy cfg) = None)"
  have "list_all (\<lambda>r. status r = Success) (url_results env cfg iu)"
    if "iu \<in> set (enumerate 0 urls)" for iu
  proof -
    from that have i: "fst iu < length urls" by (auto simp: in_set_enumerate_eq)
    with a obtain d where "setup_outcome env (fst iu) = Inr (Some d)" by blast
    moreover from a i have "\<forall>rn < runs_per_url cfg. get_outcome (page env (fst iu) rn) = None
            \<and> wait_for_load (page env (fst iu) rn) (wait_strategy cfg) = None" by blast
    ultimately show ?thesis by (rule url_results_success)
  qed
  then show "list_all (\<lambda>r. status r = Success) (results_of (trace (run env urls cfg)))"
    using a by (auto simp: run_results_no_stop list_all_iff)
qed

lemma upt2: "[0..<2] = [0, 1]"
  by (simp add: upt_rec)

lemma pe_loaded_ok:
  "get_outcome pe_loaded = None" "wait_for_load pe_loaded ''Combined'' = None"
  by (simp_all add: pe_loaded_def wait_for_load_def)

text \<open>Two URLs, two runs each, everything succeeds.\<close>

theorem run_emits_all_results_then_finished_witness:
  "stop_at (env_loads None) = None
   \<and> setup_outcome (env_loads None) 0 = Inr (Some (Driver 0))
   \<and> setup_outcome (env_loads None) 1 = Inr (Some (Driver 1))
   \<and> get_outcome (page (env_loads None) 1 1) = None
   \<and> wait_for_load (page (env_loads None) 1 1) (wait_strategy cfg_two_runs) = None
   \<and> map (\<lambda>r. (url r, run_number r))
        (results_of (trace (run (env_loads None) [''https://a.example'', ''https://b.example''] cfg_two_runs)))
      = [(''https://a.example'', Some 1), (''https://a.example'', Some 2),
         (''https://b.example'', Some 1), (''https://b.example'', Some 2)]
   \<and> length (results_of (trace (run (env_loads None) [''https://a.example'', ''https://b.example''] cfg_two_runs))) = 4
   \<and> list_all (\<lambda>r. status r = Success)
        (results_of (trace (run (env_loads None) [''https://a.example'', ''https://b.example''] cfg_two_runs)))"
proof -
  let ?env = "env_loads None" and ?urls = "[''https://a.example'', ''https://b.example'']"
  have h1: "stop_at ?env = None" by (simp add: env_loads_def)
  have h2: "\<forall>i < length ?urls. \<exists>d. setup_outcome ?env i = Inr (Some d)" by (simp add: env_loads_def)
  have h3: "\<forall>i < length ?urls. \<forall>rn < runs_per_url cfg_two_runs.
               get_outcome (page ?env i rn) = None
               \<and> wait_for_load (page ?env i rn) (wait_strategy cfg_two_runs) = None"
    by (simp add: env_loads_def cfg_two_runs_def pe_loaded_ok)
  have n: "runs_per_url cfg_two_runs = 2" by (simp add: cfg_two_runs_def)
  from run_emits_all_results_then_finished[of ?env ?urls cfg_two_runs] h1 h2 h3
  have "map (\<lambda>r. (url r, run_number r)) (results_of (trace (run ?env ?urls cfg_two_runs)))
          = concat (map (\<lambda>u. map (\<lambda>rn. (u, Some (rn + 1))) [0..<runs_per_url cfg_two_runs]) ?urls)"
    and "length (results_of (trace (run ?env ?urls cfg_two_runs))) = runs_per_url cfg_two_runs * length ?urls"
    and "list_all (\<lambda>r. status r = Success) (results_of (trace (run ?env ?urls cfg_two_runs)))"
    by blast+
  then show ?thesis
    by (simp add: n upt2 env_loads_def cfg_two_runs_def pe_loaded_ok)
qed


lemma url_body_setup_failed:
  assumes "running_at env (length (trace st))" and "setup_result env i = Inl e"
  shows "url_body env cfg tsteps (i, u) st =
     (Completed, setup_failed env cfg tsteps i u e
        (act (Setup_call i)
           (emit (Status_update (''Initializing driver for URL: '' @ u @ ''...''))
              ((act (Check True) st)\<lparr>driver := None\<rparr>))))"
  using assms by (simp add: url_body_def check_eq Let_def isinstance_Exception)

text \<open>
  Claim C2. When the loop body runs for the URL \<open>u\<close> at position \<open>i\<close> (the flag is set at
  its check) and the driver setup fails with \<open>e\<close>, the body emits the fatal status and
  one \<^verbatim>\<open>error_occurred\<close> signal, then exactly \<open>runs_per_url\<close> results for \<open>u\<close>, each
  with status Error, run numbers \<open>1..runs_per_url\<close> and the same message
  \<^verbatim>\<open>Driver setup failed: <e>\<close>, and ends in \<^verbatim>\<open>continue\<close>: the loop goes on over
  the remaining URLs. In a run without a stop request the results are those of every
  URL in list order, a failed setup contributing its error results and the URLs after
  it theirs.
\<close>

theorem setup_failure_emits_error_results_and_continues:
  "(running_at env (length (trace st)) \<and> setup_result env i = Inl e \<longrightarrow>
      (\<exists>st'. url_body env cfg tsteps (i, u) st = (Completed, st')
         \<and> trace st' = trace st
              @ [Check True,
                 Emit (Status_update (''Initializing driver for URL: '' @ u @ ''...'')),
                 Setup_call i,
                 Emit (Status_update (''Fatal Error initializing driver for '' @ u @ '': '' @ exn_msg e)),
                 Emit (Error_occurred (''Fatal Error initializing driver for '' @ u @ '': '' @ exn_msg e))]
              @ concat (map (\<lambda>(k, rn). [Emit (Progress k tsteps),
                                         Emit (Result_ready (error_result env cfg i u e rn))])
                          (enumerate (current_step st + 1) [0..<runs_per_url cfg]))
         \<and> results_of (trace st')
              = results_of (trace st) @ map (error_result env cfg i u e) [0..<runs_per_url cfg]
         \<and> for_each (url_body env cfg tsteps) ((i, u) # rest) st
              = for_each (url_body env cfg tsteps) rest st'))
   \<and> (\<forall>rn. status (error_result env cfg i u e rn) = Error
          \<and> url (error_result env cfg i u e rn) = u
          \<and> run_number (error_result env cfg i u e rn) = Some (rn + 1)
          \<and> error_message (error_result env cfg i u e rn)
               = Some (Some (''Driver setup failed: '' @ exn_msg e)))
   \<and> (setup_result env i = Inl e \<longrightarrow>
         url_results env cfg (i, u) = map (error_result env cfg i u e) [0..<runs_per_url cfg])
   \<and> (stop_at env = None \<longrightarrow>
         results_of (trace (run env urls cfg))
           = concat (map (url_results env cfg) (enumerate 0 urls)))"
proof (intro conjI impI allI)
  assume a: "running_at env (length (trace st)) \<and> setup_result env i = Inl e"
  let ?st3 = "act (Setup_call i)
           (emit (Status_update (''Initializing driver for URL: '' @ u @ ''...''))
              ((act (Check True) st)\<lparr>driver := None\<rparr>))"
  let ?st' = "setup_failed env cfg tsteps i u e ?st3"
  have b: "url_body env cfg tsteps (i, u) st = (Completed, ?st')"
    using a url_body_setup_failed by blast
  have t: "trace ?st' = trace st
              @ [Check True,
                 Emit (Status_update (''Initializing driver for URL: '' @ u @ ''...'')),
                 Setup_call i,
                 Emit (Status_update (''Fatal Error initializing driver for '' @ u @ '': '' @ exn_msg e)),
                 Emit (Error_occurred (''Fatal Error initializing driver for '' @ u @ '': '' @ exn_msg e))]
              @ concat (map (\<lambda>(k, rn). [Emit (Progress k tsteps),
                                         Emit (Result_ready (error_result env cfg i u e rn))])
                          (enumerate (current_step st + 1) [0..<runs_per_url cfg]))"
    by (simp add: setup_failed_trace)
  have r: "results_of (trace ?st')
              = results_of (trace st) @ map (error_result env cfg i u e) [0..<runs_per_url cfg]"
    unfolding t by (simp add: results_of_fail_block)
  have f: "for_each (url_body env cfg tsteps) ((i, u) # rest) st
              = for_each (url_body env cfg tsteps) rest ?st'"
    by (simp add: b Let_def)
  show "\<exists>st'. url_body env cfg tsteps (i, u) st = (Completed, st')
         \<and> trace st' = trace st
              @ [Check True,
                 Emit (Status_update (''Initializing driver for URL: '' @ u @ ''...'')),
                 Setup_call i,
                 Emit (Status_update (''Fatal Error initializing driver for '' @ u @ '': '' @ exn_msg e)),
                 Emit (Error_occurred (''Fatal Error initializing driver for '' @ u @ '': '' @ exn_msg e))]
              @ concat (map (\<lambda>(k, rn). [Emit (Progress k tsteps),
                                         Emit (Result_ready (error_result env cfg i u e rn))])
                          (enumerate (current_step st + 1) [0..<runs_per_url cfg]))
         \<and> results_of (trace st')
              = results_of (trace st) @ map (error_result env cfg i u e) [0..<runs_per_url cfg]
         \<and> for_each (url_body env cfg tsteps) ((i, u) # rest) st
              = for_each (url_body env cfg tsteps) rest st'"
    using b t r f by blast
next
  fix rn
  show "status (error_result env cfg i u e rn) = Error" by (simp add: error_result_def)
  show "url (error_result env cfg i u e rn) = u" by (simp add: error_result_def)
  show "run_number (error_result env cfg i u e rn) = Some (rn + 1)" by (simp add: error_result_def)
  show "error_message (error_result env cfg i u e rn)
               = Some (Some (''Driver setup failed: '' @ exn_msg e))" by (simp add: error_result_def)
next
  assume "setup_result env i = Inl e"
  then show "url_results env cfg (i, u) = map (error_result env cfg i u e) [0..<runs_per_url cfg]"
    by (simp add: url_results_def)
next
  assume "stop_at env = None"
  then show "results_of (trace (run env urls cfg))
           = concat (map (url_results env cfg) (enumerate 0 urls))"
    by (rule run_results_no_stop)
qed

lemma measure_pe_loaded:
  "measure_load_time pe_loaded u 30 ''Combined'' =
     Inr \<lparr>url = u, load_time_ms = 1000, status = Success, error_message = Some None,
          navigation_timing = Some None, timestamp = 1700000000, run_number = None, config = None\<rparr>"
  by (simp add: measure_load_time_def try_body_def get_detailed_timing_def finally_block_def
      initial_results_def pe_loaded_def wait_for_load_def)

text \<open>The first of two URLs fails its setup; the second is still measured.\<close>

theorem setup_failure_witness:
  "stop_at (env_first_setup_fails None) = None
   \<and> running_at (env_first_setup_fails None) (length (trace initial_state))
   \<and> setup_result (env_first_setup_fails None) 0
        = Inl (Exn WebDriverException ''Message: ChromeDriver setup failed: no chrome'')
   \<and> fst (url_body (env_first_setup_fails None) cfg_two_runs 4 (0, ''https://a.example'') initial_state)
        = Completed
   \<and> map (\<lambda>r. (url r, run_number r, status r, error_message r))
        (results_of (trace (run (env_first_setup_fails None)
                              [''https://a.example'', ''https://b.example''] cfg_two_runs)))
      = [(''https://a.example'', Some 1, Error,
            Some (Some ''Driver setup failed: Message: ChromeDriver setup failed: no chrome'')),
         (''https://a.example'', Some 2, Error,
            Some (Some ''Driver setup failed: Message: ChromeDriver setup failed: no chrome'')),
         (''https://b.example'', Some 1, Success, Some None),
         (''https://b.example'', Some 2, Success, Some None)]"
proof -
  let ?env = "env_first_setup_fails None"
  let ?e = "Exn WebDriverException ''Message: ChromeDriver setup failed: no chrome''"
  let ?urls = "[''https://a.example'', ''https://b.example'']"
  have h1: "stop_at ?env = None" by (simp add: env_first_setup_fails_def)
  have h2: "running_at ?env (length (trace initial_state))" by (simp add: h1)
  have h3: "setup_result ?env 0 = Inl ?e" by (simp add: setup_result_def env_first_setup_fails_def)
  have h4: "setup_result ?env (Suc 0) = Inr (Driver (Suc 0))" by (simp add: setup_result_def env_first_setup_fails_def)
  note inst = setup_failure_emits_error_results_and_continues[of ?env initial_state 0 ?e cfg_two_runs 4
      "''https://a.example''" "[(1, ''https://b.example'')]" ?urls]
  from inst h2 h3 have c1: "fst (url_body ?env cfg_two_runs 4 (0, ''https://a.example'') initial_state) = Completed"
    by auto
  from inst h3 have c3: "url_results ?env cfg_two_runs (0, ''https://a.example'')
     = map (error_result ?env cfg_two_runs 0 ''https://a.example'' ?e) [0..<runs_per_url cfg_two_runs]"
    by blast
  from inst h1 have c4: "results_of (trace (run ?env ?urls cfg_two_runs))
           = concat (map (url_results ?env cfg_two_runs) (enumerate 0 ?urls))" by blast
  have b: "url_results ?env cfg_two_runs (Suc 0, ''https://b.example'')
      = [tag_result cfg_two_runs 0 \<lparr>url = ''https://b.example'', load_time_ms = 1000, status = Success,
            error_message = Some None, navigation_timing = Some None, timestamp = 1700000000,
            run_number = None, config = None\<rparr>,
         tag_result cfg_two_runs 1 \<lparr>url = ''https://b.example'', load_time_ms = 1000, status = Success,
            error_message = Some None, navigation_timing = Some None, timestamp = 1700000000,
            run_number = None, config = None\<rparr>]"
  proof -
    have pg: "page ?env i rn = pe_loaded" for i rn by (simp add: env_first_setup_fails_def)
    have n: "runs_per_url cfg_two_runs = 2" "timeout_seconds cfg_two_runs = 30"
      "wait_strategy cfg_two_runs = ''Combined''" by (simp_all add: cfg_two_runs_def)
    show ?thesis using h4
      by (simp add: url_results_def run_results_def pg n upt2 measure_pe_loaded)
  qed
  have n2: "runs_per_url cfg_two_runs = 2" by (simp add: cfg_two_runs_def)
  have ma: "map (\<lambda>r. (url r, run_number r, status r, error_message r))
        (url_results ?env cfg_two_runs (0, ''https://a.example''))
      = [(''https://a.example'', Some 1, Error,
            Some (Some ''Driver setup failed: Message: ChromeDriver setup failed: no chrome'')),
         (''https://a.example'', Some 2, Error,
            Some (Some ''Driver setup failed: Message: ChromeDriver setup failed: no chrome''))]"
    by (simp add: c3 n2 upt2 error_result_def)
  have mb: "map (\<lambda>r. (url r, run_number r, status r, error_message r))
        (url_results ?env cfg_two_runs (Suc 0, ''https://b.example''))
      = [(''https://b.example'', Some 1, Success, Some None),
         (''https://b.example'', Some 2, Success, Some None)]"
    by (simp add: b tag_result_def)
  have "map (\<lambda>r. (url r, run_number r, status r, error_message r))
        (results_of (trace (run ?env ?urls cfg_two_runs)))
      = [(''https://a.example'', Some 1, Error,
            Some (Some ''Driver setup failed: Message: ChromeDriver setup failed: no chrome'')),
         (''https://a.example'', Some 2, Error,
            Some (Some ''Driver setup failed: Message: ChromeDriver setup failed: no chrome'')),
         (''https://b.example'', Some 1, Success, Some None),
         (''https://b.example'', Some 2, Success, Some None)]"
    unfolding c4 by (simp only: enumerate_simps map_append list.map concat.simps append.simps ma mb
        append_Nil2 One_nat_def)
  with h1 h2 h3 c1 show ?thesis by simp
qed







section \<open>The summary report\<close>

lemma and_then_Inr [simp]: "and_then (Inr x) f = f x"
  by (simp add: and_then_def)

lemma and_then_Inl [simp]: "and_then (Inl e) f = Inl e"
  by (simp add: and_then_def)

lemma py_mean_nonempty: "xs \<noteq> [] \<Longrightarrow> py_mean xs = Inr (sum_list xs / real (length xs))"
  by (simp add: py_mean_def)

lemma py_min_nonempty: "xs \<noteq> [] \<Longrightarrow> py_min xs = Inr (Min (set xs))"
proof (cases xs)
  case Nil
  assume "xs \<noteq> []"
  with Nil show ?thesis by simp
next
  case (Cons a list)
  have "Min (set (a # list)) = fold min list a" by (rule Min.set_eq_fold)
  then show ?thesis unfolding Cons by (simp add: py_min_def)
qed

lemma py_max_nonempty: "xs \<noteq> [] \<Longrightarrow> py_max xs = Inr (Max (set xs))"
proof (cases xs)
  case Nil
  assume "xs \<noteq> []"
  with Nil show ?thesis by simp
next
  case (Cons a list)
  have "Max (set (a # list)) = fold max list a" by (rule Max.set_eq_fold)
  then show ?thesis unfolding Cons by (simp add: py_max_def)
qed

lemma sort_eq_Nil [simp]: "sort xs = [] \<longleftrightarrow> xs = []"
  by (metis length_sort length_0_conv)

lemma py_median_nonempty:
  "xs \<noteq> [] \<Longrightarrow> py_median xs =
     Inr (if odd (length xs) then sort xs ! (length xs div 2)
          else (sort xs ! (length xs div 2 - 1) + sort xs ! (length xs div 2)) / 2)"
  by (auto simp: py_median_def Let_def odd_iff_mod_2_eq_one)

lemma py_stdev_two:
  "1 < length xs \<Longrightarrow> py_stdev xs =
     Inr (sqrt (sum_list (map (\<lambda>x. (x - sum_list xs / real (length xs))\<^sup>2) xs)
                / (real (length xs) - 1)))"
  by (simp add: py_stdev_def Let_def of_nat_diff)

lemma url_entry_numbers:
  assumes "map load_time_ms (filter (\<lambda>r. 0 \<le> load_time_ms r)
             (filter (\<lambda>r. url r = u \<and> status r = Success) rs)) = lt"
    and "lt \<noteq> []"
  shows "url_entry rs u =
     Inr \<lparr>s_url = u,
          num_successful_runs = length lt,
          num_errors = length (filter (\<lambda>r. url r = u \<and> status r = Error) rs),
          avg_load_time_ms = Num (py_round2 (sum_list lt / real (length lt))),
          min_load_time_ms = Num (py_round2 (Min (set lt))),
          max_load_time_ms = Num (py_round2 (Max (set lt))),
          median_load_time_ms = Num (py_round2
             (if odd (length lt) then sort lt ! (length lt div 2)
              else (sort lt ! (length lt div 2 - 1) + sort lt ! (length lt div 2)) / 2)),
          std_dev_load_time_ms = Num
             (if 1 < length lt
              then py_round2 (sqrt (sum_list (map (\<lambda>x. (x - sum_list lt / real (length lt))\<^sup>2) lt)
                                     / (real (length lt) - 1)))
              else 0),
          error_messages = map message_or_unknown (filter (\<lambda>r. url r = u \<and> status r = Error) rs)\<rparr>"
proof -
  let ?f = "filter (\<lambda>r. 0 \<le> load_time_ms r) (filter (\<lambda>r. url r = u \<and> status r = Success) rs)"
  have lt: "map load_time_ms ?f = lt" by (rule assms(1))
  show ?thesis
    unfolding url_entry_def Let_def lt
    using assms(2)
    by (simp add: py_mean_nonempty py_min_nonempty py_max_nonempty py_median_nonempty py_stdev_two)
qed

lemma url_entry_unavailable:
  assumes "map load_time_ms (filter (\<lambda>r. 0 \<le> load_time_ms r)
             (filter (\<lambda>r. url r = u \<and> status r = Success) rs)) = []"
  shows "url_entry rs u =
     Inr \<lparr>s_url = u, num_successful_runs = 0,
          num_errors = length (filter (\<lambda>r. url r = u \<and> status r = Error) rs),
          avg_load_time_ms = NA, min_load_time_ms = NA, max_load_time_ms = NA,
          median_load_time_ms = NA, std_dev_load_time_ms = NA,
          error_messages = map message_or_unknown (filter (\<lambda>r. url r = u \<and> status r = Error) rs)\<rparr>"
  unfolding url_entry_def Let_def assms by simp

lemma url_entry_returns: "\<exists>e. url_entry rs u = Inr e"
proof (cases "map load_time_ms (filter (\<lambda>r. 0 \<le> load_time_ms r)
             (filter (\<lambda>r. url r = u \<and> status r = Success) rs)) = []")
  case True
  then show ?thesis using url_entry_unavailable by blast
next
  case False
  then show ?thesis using url_entry_numbers[OF refl False] by blast
qed

lemma summarize_urls_entries:
  "\<exists>summary. summarize_urls rs us = Inr summary \<and> map fst summary = us
      \<and> (\<forall>u e. (u, e) \<in> set summary \<longrightarrow> url_entry rs u = Inr e)"
proof (induction us)
  case Nil
  show ?case by simp
next
  case (Cons u us)
  obtain e where e: "url_entry rs u = Inr e" using url_entry_returns by blast
  from Cons obtain rest where "summarize_urls rs us = Inr rest" "map fst rest = us"
    "\<forall>u e. (u, e) \<in> set rest \<longrightarrow> url_entry rs u = Inr e" by blast
  with e show ?case by auto
qed

lemma summary_lookup:
  assumes "map fst summary = us" and "\<forall>u e. (u, e) \<in> set summary \<longrightarrow> url_entry rs u = Inr e"
    and "u \<in> set us"
  shows "\<exists>e. map_of summary u = Some e \<and> url_entry rs u = Inr e"
proof -
  from assms(1,3) have "u \<in> fst ` set summary" by (metis set_map)
  then obtain e where m: "map_of summary u = Some e"
    by (metis domD dom_map_of_conv_image_fst)
  then have "(u, e) \<in> set summary" by (rule map_of_SomeD)
  with assms(2) m show ?thesis by blast
qed

lemma generate_summary_report_entries:
  "\<exists>summary. generate_summary_report rs = Inr summary
      \<and> map fst summary = sort (remdups (map url rs))
      \<and> (\<forall>u \<in> url ` set rs. \<exists>e. map_of summary u = Some e \<and> url_entry rs u = Inr e)"
proof (cases "rs = []")
  case True
  then show ?thesis by (simp add: generate_summary_report_def)
next
  case False
  from summarize_urls_entries[of rs "sort (remdups (map url rs))"]
  obtain summary where s: "summarize_urls rs (sort (remdups (map url rs))) = Inr summary"
    "map fst summary = sort (remdups (map url rs))"
    "\<forall>u e. (u, e) \<in> set summary \<longrightarrow> url_entry rs u = Inr e" by blast
  have "\<exists>e. map_of summary u = Some e \<and> url_entry rs u = Inr e" if "u \<in> url ` set rs" for u
    using summary_lookup[OF s(2,3), of u] that by simp
  with s False show ?thesis by (auto simp: generate_summary_report_def)
qed


lemma round_half_even_of_int [simp]: "round_half_even (of_int k) = k"
  by (simp add: round_half_even_def Let_def)

lemma py_round2_grid: "\<exists>k::int. py_round2 x = of_int k / 100"
  by (auto simp: py_round2_def)

lemma round_half_even_close: "\<bar>of_int (round_half_even y) - y\<bar> \<le> 1 / 2"
proof -
  have f: "of_int \<lfloor>y\<rfloor> \<le> y" "y < of_int \<lfloor>y\<rfloor> + 1" by linarith+
  show ?thesis
    unfolding round_half_even_def Let_def
    using f by (simp add: abs_if) linarith
qed

lemma py_round2_close: "\<bar>py_round2 x - x\<bar> \<le> 1 / 200"
proof -
  have "\<bar>of_int (round_half_even (x * 100)) - x * 100\<bar> \<le> 1 / 2" by (rule round_half_even_close)
  then show ?thesis by (simp add: py_round2_def abs_if field_simps split: if_splits)
qed

lemma sorted_urls:
  "sort (remdups (map url results_mixed)) = [''a.example'', ''b.example'', ''c.example'']"
  by (simp add: results_mixed_def success_result_def failed_result_def)


text \<open>
  Claim C6. On results whose successes have a load time that is not negative (the
  sampler guarantees it), \<^verbatim>\<open>generate_summary_report\<close> returns a summary whose
  keys are the distinct URLs in ascending order. For every URL with at least one
  success, over the load times of its successes: the entry counts them and holds their
  mean, minimum, maximum and median and a standard deviation that is 0 for one success
  and the sample standard deviation (divisor \<open>n - 1\<close>) for two or more, each rounded to
  two decimal places: the rounded value is a multiple of 0.01 at most 0.005 away.
\<close>

theorem summary_statistics_of_successes:
  assumes "\<forall>r \<in> set rs. status r = Success \<longrightarrow> 0 \<le> load_time_ms r"
  shows "\<exists>summary. generate_summary_report rs = Inr summary
      \<and> sorted (map fst summary) \<and> distinct (map fst summary)
      \<and> set (map fst summary) = url ` set rs
      \<and> (\<forall>u lt. lt = map load_time_ms (filter (\<lambda>r. url r = u \<and> status r = Success) rs)
              \<and> lt \<noteq> [] \<longrightarrow>
           (\<exists>e. map_of summary u = Some e
              \<and> s_url e = u
              \<and> num_successful_runs e = length lt
              \<and> avg_load_time_ms e = Num (py_round2 (sum_list lt / real (length lt)))
              \<and> min_load_time_ms e = Num (py_round2 (Min (set lt)))
              \<and> max_load_time_ms e = Num (py_round2 (Max (set lt)))
              \<and> median_load_time_ms e = Num (py_round2
                   (if odd (length lt) then sort lt ! (length lt div 2)
                    else (sort lt ! (length lt div 2 - 1) + sort lt ! (length lt div 2)) / 2))
              \<and> std_dev_load_time_ms e = Num
                   (if length lt = 1 then 0
                    else py_round2 (sqrt (sum_list (map (\<lambda>x. (x - sum_list lt / real (length lt))\<^sup>2) lt)
                                           / (real (length lt) - 1))))))
      \<and> (\<forall>x. \<bar>py_round2 x - x\<bar> \<le> 1 / 200 \<and> (\<exists>k::int. py_round2 x = of_int k / 100))"
proof -
  obtain summary where s: "generate_summary_report rs = Inr summary"
    "map fst summary = sort (remdups (map url rs))"
    "\<forall>u \<in> url ` set rs. \<exists>e. map_of summary u = Some e \<and> url_entry rs u = Inr e"
    using generate_summary_report_entries by blast
  have keys: "sorted (map fst summary)" "distinct (map fst summary)"
    "set (map fst summary) = url ` set rs"
    by (simp_all add: s(2))
  have ok: "filter (\<lambda>r. 0 \<le> load_time_ms r) (filter (\<lambda>r. url r = u \<and> status r = Success) rs)
      = filter (\<lambda>r. url r = u \<and> status r = Success) rs" for u
  proof -
    have "filter (\<lambda>r. 0 \<le> load_time_ms r) (filter (\<lambda>r. url r = u \<and> status r = Success) rs)
      = filter (\<lambda>x. (url x = u \<and> status x = Success) \<and> 0 \<le> load_time_ms x) rs"
      by (simp only: filter_filter)
    also have "\<dots> = filter (\<lambda>r. url r = u \<and> status r = Success) rs"
      by (rule filter_cong) (use assms in auto)
    finally show ?thesis .
  qed
  have entry: "\<exists>e. map_of summary u = Some e
              \<and> s_url e = u
              \<and> num_successful_runs e = length lt
              \<and> avg_load_time_ms e = Num (py_round2 (sum_list lt / real (length lt)))
              \<and> min_load_time_ms e = Num (py_round2 (Min (set lt)))
              \<and> max_load_time_ms e = Num (py_round2 (Max (set lt)))
              \<and> median_load_time_ms e = Num (py_round2
                   (if odd (length lt) then sort lt ! (length lt div 2)
                    else (sort lt ! (length lt div 2 - 1) + sort lt ! (length lt div 2)) / 2))
              \<and> std_dev_load_time_ms e = Num
                   (if length lt = 1 then 0
                    else py_round2 (sqrt (sum_list (map (\<lambda>x. (x - sum_list lt / real (length lt))\<^sup>2) lt)
                                           / (real (length lt) - 1))))"
    if lt: "lt = map load_time_ms (filter (\<lambda>r. url r = u \<and> status r = Success) rs)" and ne: "lt \<noteq> []"
    for u lt
  proof -
    from lt ne have "filter (\<lambda>r. url r = u \<and> status r = Success) rs \<noteq> []" by auto
    then obtain r where "r \<in> set (filter (\<lambda>r. url r = u \<and> status r = Success) rs)"
      by (meson last_in_set)
    then have "r \<in> set rs" "url r = u" by simp_all
    then have "u \<in> url ` set rs" by blast
    with s(3) obtain e where e: "map_of summary u = Some e" "url_entry rs u = Inr e" by blast
    have "map load_time_ms (filter (\<lambda>r. 0 \<le> load_time_ms r)
             (filter (\<lambda>r. url r = u \<and> status r = Success) rs)) = lt"
      unfolding ok lt ..
    from url_entry_numbers[OF this ne] e(2)
    have "e = \<lparr>s_url = u,
          num_successful_runs = length lt,
          num_errors = length (filter (\<lambda>r. url r = u \<and> status r = Error) rs),
          avg_load_time_ms = Num (py_round2 (sum_list lt / real (length lt))),
          min_load_time_ms = Num (py_round2 (Min (set lt))),
          max_load_time_ms = Num (py_round2 (Max (set lt))),
          median_load_time_ms = Num (py_round2
             (if odd (length lt) then sort lt ! (length lt div 2)
              else (sort lt ! (length lt div 2 - 1) + sort lt ! (length lt div 2)) / 2)),
          std_dev_load_time_ms = Num
             (if 1 < length lt
              then py_round2 (sqrt (sum_list (map (\<lambda>x. (x - sum_list lt / real (length lt))\<^sup>2) lt)
                                     / (real (length lt) - 1)))
              else 0),
          error_messages = map message_or_unknown (filter (\<lambda>r. url r = u \<and> status r = Error) rs)\<rparr>"
      by simp
    moreover have "1 < length lt \<longleftrightarrow> length lt \<noteq> 1" using ne by (cases lt) auto
    ultimately show ?thesis using e(1) by auto
  qed
  show ?thesis
    using s(1) keys entry py_round2_close py_round2_grid by blast
qed


lemma py_round2_of_int: "py_round2 (of_int k) = of_int k"
proof -
  have "of_int k * 100 = (of_int (k * 100) :: real)" by simp
  then have "round_half_even (of_int k * 100) = k * 100"
    by (simp only: round_half_even_of_int)
  then show ?thesis by (simp add: py_round2_def)
qed

lemma sqrt_10000: "sqrt 10000 = 100"
  by (rule real_sqrt_unique) simp_all

text \<open>
  Load times 100, 200 and 300 give mean 200, median 200 and standard deviation 100; a
  single success gives standard deviation 0.
\<close>

theorem summary_statistics_witness:
  "list_all (\<lambda>r. 0 \<le> load_time_ms r) results_mixed
   \<and> map load_time_ms (filter (\<lambda>r. url r = ''a.example'' \<and> status r = Success) results_mixed)
       = [100, 200, 300]
   \<and> map load_time_ms (filter (\<lambda>r. url r = ''b.example'' \<and> status r = Success) results_mixed)
       = [250]
   \<and> (\<exists>summary a b. generate_summary_report results_mixed = Inr summary
         \<and> map fst summary = [''a.example'', ''b.example'', ''c.example'']
         \<and> map_of summary ''a.example'' = Some a
         \<and> num_successful_runs a = 3
         \<and> avg_load_time_ms a = Num 200
         \<and> min_load_time_ms a = Num 100
         \<and> max_load_time_ms a = Num 300
         \<and> median_load_time_ms a = Num 200
         \<and> std_dev_load_time_ms a = Num 100
         \<and> map_of summary ''b.example'' = Some b
         \<and> num_successful_runs b = 1
         \<and> avg_load_time_ms b = Num 250
         \<and> median_load_time_ms b = Num 250
         \<and> std_dev_load_time_ms b = Num 0)"
proof -
  have h: "\<forall>r \<in> set results_mixed. status r = Success \<longrightarrow> 0 \<le> load_time_ms r"
    by (simp add: results_mixed_def success_result_def failed_result_def)
  have h': "list_all (\<lambda>r. 0 \<le> load_time_ms r) results_mixed"
    by (simp add: results_mixed_def success_result_def failed_result_def)
  have la: "map load_time_ms (filter (\<lambda>r. url r = ''a.example'' \<and> status r = Success) results_mixed)
       = [100, 200, 300]"
    by (simp add: results_mixed_def success_result_def failed_result_def)
  have lb: "map load_time_ms (filter (\<lambda>r. url r = ''b.example'' \<and> status r = Success) results_mixed)
       = [250]"
    by (simp add: results_mixed_def success_result_def failed_result_def)
  have us: "url ` set results_mixed = set [''a.example'', ''b.example'', ''c.example'']"
    by (auto simp: results_mixed_def success_result_def failed_result_def)
  from summary_statistics_of_successes[OF h]
  obtain summary where s: "generate_summary_report results_mixed = Inr summary"
    "sorted (map fst summary)" "distinct (map fst summary)"
    "set (map fst summary) = url ` set results_mixed"
    and ent: "\<forall>u lt. lt = map load_time_ms (filter (\<lambda>r. url r = u \<and> status r = Success) results_mixed)
              \<and> lt \<noteq> [] \<longrightarrow>
           (\<exists>e. map_of summary u = Some e
              \<and> s_url e = u
              \<and> num_successful_runs e = length lt
              \<and> avg_load_time_ms e = Num (py_round2 (sum_list lt / real (length lt)))
              \<and> min_load_time_ms e = Num (py_round2 (Min (set lt)))
              \<and> max_load_time_ms e = Num (py_round2 (Max (set lt)))
              \<and> median_load_time_ms e = Num (py_round2
                   (if odd (length lt) then sort lt ! (length lt div 2)
                    else (sort lt ! (length lt div 2 - 1) + sort lt ! (length lt div 2)) / 2))
              \<and> std_dev_load_time_ms e = Num
                   (if length lt = 1 then 0
                    else py_round2 (sqrt (sum_list (map (\<lambda>x. (x - sum_list lt / real (length lt))\<^sup>2) lt)
                                           / (real (length lt) - 1)))))"
    by blast
  have keys: "map fst summary = [''a.example'', ''b.example'', ''c.example'']"
  proof (rule sorted_distinct_set_unique)
    show "sorted (map fst summary)" "distinct (map fst summary)" by (rule s)+
    show "sorted [''a.example'', ''b.example'', ''c.example'']" by simp
    show "distinct [''a.example'', ''b.example'', ''c.example'']" by simp
    show "set (map fst summary) = set [''a.example'', ''b.example'', ''c.example'']"
      using s(4) us by simp
  qed
  have r: "py_round2 100 = 100" "py_round2 200 = 200" "py_round2 300 = 300" "py_round2 250 = 250"
    using py_round2_of_int[of 100] py_round2_of_int[of 200] py_round2_of_int[of 300]
      py_round2_of_int[of 250] by simp_all
  have f1: "sum_list [100, 200, 300 :: real] / real (length [100, 200, 300 :: real]) = 200" by simp
  have f2: "Min (set [100, 200, 300 :: real]) = 100" "Max (set [100, 200, 300 :: real]) = 300"
    by simp_all
  have f3: "sort [100, 200, 300 :: real] = [100, 200, 300]" by simp
  have f4: "(if odd (length [100, 200, 300 :: real])
             then sort [100, 200, 300 :: real] ! (length [100, 200, 300 :: real] div 2)
             else (sort [100, 200, 300 :: real] ! (length [100, 200, 300 :: real] div 2 - 1)
                   + sort [100, 200, 300 :: real] ! (length [100, 200, 300 :: real] div 2)) / 2) = 200"
    unfolding f3 by (simp add: numeral_3_eq_3)
  have f5: "sum_list (map (\<lambda>x. (x - sum_list [100, 200, 300 :: real]
                 / real (length [100, 200, 300 :: real]))\<^sup>2) [100, 200, 300 :: real])
              / (real (length [100, 200, 300 :: real]) - 1) = 10000"
    by simp
  have f6: "length [100, 200, 300 :: real] = 3" "(3::nat) \<noteq> 1" by simp_all
  have pa: "[100, 200, 300] = map load_time_ms
       (filter (\<lambda>r. url r = ''a.example'' \<and> status r = Success) results_mixed)
     \<and> [100, 200, 300 :: real] \<noteq> []" using la by simp
  from ent[rule_format, OF pa]
  obtain a where a0: "map_of summary ''a.example'' = Some a"
    "num_successful_runs a = length [100, 200, 300 :: real]"
    "avg_load_time_ms a = Num (py_round2 (sum_list [100, 200, 300 :: real] / real (length [100, 200, 300 :: real])))"
    "min_load_time_ms a = Num (py_round2 (Min (set [100, 200, 300 :: real])))"
    "max_load_time_ms a = Num (py_round2 (Max (set [100, 200, 300 :: real])))"
    "median_load_time_ms a = Num (py_round2 (if odd (length [100, 200, 300 :: real])
             then sort [100, 200, 300 :: real] ! (length [100, 200, 300 :: real] div 2)
             else (sort [100, 200, 300 :: real] ! (length [100, 200, 300 :: real] div 2 - 1)
                   + sort [100, 200, 300 :: real] ! (length [100, 200, 300 :: real] div 2)) / 2))"
    "std_dev_load_time_ms a = Num (if length [100, 200, 300 :: real] = 1 then 0
          else py_round2 (sqrt (sum_list (map (\<lambda>x. (x - sum_list [100, 200, 300 :: real]
                 / real (length [100, 200, 300 :: real]))\<^sup>2) [100, 200, 300 :: real])
              / (real (length [100, 200, 300 :: real]) - 1))))"
    by blast
  have a: "map_of summary ''a.example'' = Some a"
    "num_successful_runs a = 3" "avg_load_time_ms a = Num 200" "min_load_time_ms a = Num 100"
    "max_load_time_ms a = Num 300" "median_load_time_ms a = Num 200" "std_dev_load_time_ms a = Num 100"
    using a0 unfolding f1 f2 f4 f5 sqrt_10000 r by (simp_all add: r)
  have g1: "sum_list [250 :: real] / real (length [250 :: real]) = 250" by simp
  have g4: "(if odd (length [250 :: real])
             then sort [250 :: real] ! (length [250 :: real] div 2)
             else (sort [250 :: real] ! (length [250 :: real] div 2 - 1)
                   + sort [250 :: real] ! (length [250 :: real] div 2)) / 2) = 250"
    by simp
  have pb: "[250] = map load_time_ms
       (filter (\<lambda>r. url r = ''b.example'' \<and> status r = Success) results_mixed)
     \<and> [250 :: real] \<noteq> []" using lb by simp
  from ent[rule_format, OF pb]
  obtain b where b0: "map_of summary ''b.example'' = Some b"
    "num_successful_runs b = length [250 :: real]"
    "avg_load_time_ms b = Num (py_round2 (sum_list [250 :: real] / real (length [250 :: real])))"
    "median_load_time_ms b = Num (py_round2 (if odd (length [250 :: real])
             then sort [250 :: real] ! (length [250 :: real] div 2)
             else (sort [250 :: real] ! (length [250 :: real] div 2 - 1)
                   + sort [250 :: real] ! (length [250 :: real] div 2)) / 2))"
    "std_dev_load_time_ms b = Num (if length [250 :: real] = 1 then 0
          else py_round2 (sqrt (sum_list (map (\<lambda>x. (x - sum_list [250 :: real]
                 / real (length [250 :: real]))\<^sup>2) [250 :: real])
              / (real (length [250 :: real]) - 1))))"
    by blast
  have b: "map_of summary ''b.example'' = Some b"
    "num_successful_runs b = 1" "avg_load_time_ms b = Num 250" "median_load_time_ms b = Num 250"
    "std_dev_load_time_ms b = Num 0"
    using b0 unfolding g1 g4 r by (simp_all add: r)
  have "\<exists>summary a b. generate_summary_report results_mixed = Inr summary
         \<and> map fst summary = [''a.example'', ''b.example'', ''c.example'']
         \<and> map_of summary ''a.example'' = Some a
         \<and> num_successful_runs a = 3
         \<and> avg_load_time_ms a = Num 200
         \<and> min_load_time_ms a = Num 100
         \<and> max_load_time_ms a = Num 300
         \<and> median_load_time_ms a = Num 200
         \<and> std_dev_load_time_ms a = Num 100
         \<and> map_of summary ''b.example'' = Some b
         \<and> num_successful_runs b = 1
         \<and> avg_load_time_ms b = Num 250
         \<and> median_load_time_ms b = Num 250
         \<and> std_dev_load_time_ms b = Num 0"
    by (rule exI[of _ summary], rule exI[of _ a], rule exI[of _ b]) (simp add: s(1) keys a b)
  with h' la lb show ?thesis by simp
qed


lemma in_set_nonempty: "x \<in> set xs \<Longrightarrow> xs \<noteq> []"
  by (cases xs) simp_all

text \<open>
  Claim C7. For every URL of the results that has no success, the entry holds the
  marker \<^verbatim>\<open>N/A\<close> in all five statistics and zero successful runs, and its
  \<^verbatim>\<open>error_messages\<close> are the messages of that URL's Error results in their order,
  a result without the \<^verbatim>\<open>error_message\<close> key giving \<^verbatim>\<open>Unknown Error\<close>; the list
  is not empty.
\<close>

theorem summary_without_successes:
  "\<exists>summary. generate_summary_report rs = Inr summary
      \<and> (\<forall>u. u \<in> url ` set rs
               \<and> filter (\<lambda>r. url r = u \<and> status r = Success) rs = [] \<longrightarrow>
            (\<exists>e. map_of summary u = Some e
               \<and> num_successful_runs e = 0
               \<and> avg_load_time_ms e = NA
               \<and> min_load_time_ms e = NA
               \<and> max_load_time_ms e = NA
               \<and> median_load_time_ms e = NA
               \<and> std_dev_load_time_ms e = NA
               \<and> error_messages e
                    = map message_or_unknown (filter (\<lambda>r. url r = u \<and> status r = Error) rs)
               \<and> num_errors e = length (error_messages e)
               \<and> error_messages e \<noteq> []))
      \<and> (\<forall>r. error_message r = None \<longrightarrow> message_or_unknown r = Some ''Unknown Error'')
      \<and> (\<forall>r v. error_message r = Some v \<longrightarrow> message_or_unknown r = v)"
proof -
  obtain summary where s: "generate_summary_report rs = Inr summary"
    "\<forall>u \<in> url ` set rs. \<exists>e. map_of summary u = Some e \<and> url_entry rs u = Inr e"
    using generate_summary_report_entries by blast
  have entry: "\<exists>e. map_of summary u = Some e
               \<and> num_successful_runs e = 0
               \<and> avg_load_time_ms e = NA
               \<and> min_load_time_ms e = NA
               \<and> max_load_time_ms e = NA
               \<and> median_load_time_ms e = NA
               \<and> std_dev_load_time_ms e = NA
               \<and> error_messages e
                    = map message_or_unknown (filter (\<lambda>r. url r = u \<and> status r = Error) rs)
               \<and> num_errors e = length (error_messages e)
               \<and> error_messages e \<noteq> []"
    if u: "u \<in> url ` set rs" and none: "filter (\<lambda>r. url r = u \<and> status r = Success) rs = []" for u
  proof -
    from s(2) u obtain e where e: "map_of summary u = Some e" "url_entry rs u = Inr e" by blast
    have "map load_time_ms (filter (\<lambda>r. 0 \<le> load_time_ms r)
             (filter (\<lambda>r. url r = u \<and> status r = Success) rs)) = []"
      unfolding none by simp
    from url_entry_unavailable[OF this] e(2)
    have eq: "e = \<lparr>s_url = u, num_successful_runs = 0,
          num_errors = length (filter (\<lambda>r. url r = u \<and> status r = Error) rs),
          avg_load_time_ms = NA, min_load_time_ms = NA, max_load_time_ms = NA,
          median_load_time_ms = NA, std_dev_load_time_ms = NA,
          error_messages = map message_or_unknown (filter (\<lambda>r. url r = u \<and> status r = Error) rs)\<rparr>"
      by simp
    from u obtain r where r: "r \<in> set rs" "url r = u" by blast
    from none r have "status r \<noteq> Success" by (auto simp: filter_empty_conv)
    then have "status r = Error" by (cases "status r") simp_all
    with r have "r \<in> set (filter (\<lambda>r. url r = u \<and> status r = Error) rs)" by simp
    then have "filter (\<lambda>r. url r = u \<and> status r = Error) rs \<noteq> []"
      by (rule in_set_nonempty)
    with e(1) show ?thesis unfolding eq by simp
  qed
  have m1: "message_or_unknown r = Some ''Unknown Error''" if "error_message r = None" for r
    using that by (simp add: message_or_unknown_def)
  have m2: "message_or_unknown r = v" if "error_message r = Some v" for r v
    using that by (simp add: message_or_unknown_def)
  show ?thesis
    using s(1) entry m1 m2 by blast
qed

text \<open>A URL with two failures, one of them without a message.\<close>

theorem summary_without_successes_witness:
  "''c.example'' \<in> url ` set results_mixed
   \<and> filter (\<lambda>r. url r = ''c.example'' \<and> status r = Success) results_mixed = []
   \<and> (\<exists>summary c. generate_summary_report results_mixed = Inr summary
         \<and> map_of summary ''c.example'' = Some c
         \<and> num_successful_runs c = 0
         \<and> avg_load_time_ms c = NA \<and> min_load_time_ms c = NA \<and> max_load_time_ms c = NA
         \<and> median_load_time_ms c = NA \<and> std_dev_load_time_ms c = NA
         \<and> num_errors c = 2
         \<and> error_messages c
             = [Some ''Timeout after 30 seconds waiting for page load (Combined strategy).'',
                Some ''Unknown Error''])"
proof -
  have u: "''c.example'' \<in> url ` set results_mixed"
    by (simp add: results_mixed_def success_result_def failed_result_def)
  have n: "filter (\<lambda>r. url r = ''c.example'' \<and> status r = Success) results_mixed = []"
    by (simp add: results_mixed_def success_result_def failed_result_def)
  have m: "map message_or_unknown (filter (\<lambda>r. url r = ''c.example'' \<and> status r = Error) results_mixed)
     = [Some ''Timeout after 30 seconds waiting for page load (Combined strategy).'',
        Some ''Unknown Error'']"
    by (simp add: results_mixed_def success_result_def failed_result_def message_or_unknown_def)
  from summary_without_successes[of results_mixed]
  obtain summary where s: "generate_summary_report results_mixed = Inr summary"
    and ent: "\<forall>u. u \<in> url ` set results_mixed
               \<and> filter (\<lambda>r. url r = u \<and> status r = Success) results_mixed = [] \<longrightarrow>
            (\<exists>e. map_of summary u = Some e
               \<and> num_successful_runs e = 0
               \<and> avg_load_time_ms e = NA
               \<and> min_load_time_ms e = NA
               \<and> max_load_time_ms e = NA
               \<and> median_load_time_ms e = NA
               \<and> std_dev_load_time_ms e = NA
               \<and> error_messages e
                    = map message_or_unknown (filter (\<lambda>r. url r = u \<and> status r = Error) results_mixed)
               \<and> num_errors e = length (error_messages e)
               \<and> error_messages e \<noteq> [])"
    by blast
  from ent[rule_format, OF conjI[OF u n]]
  obtain c where c: "map_of summary ''c.example'' = Some c"
    "num_successful_runs c = 0" "avg_load_time_ms c = NA" "min_load_time_ms c = NA"
    "max_load_time_ms c = NA" "median_load_time_ms c = NA" "std_dev_load_time_ms c = NA"
    "error_messages c
        = map message_or_unknown (filter (\<lambda>r. url r = ''c.example'' \<and> status r = Error) results_mixed)"
    "num_errors c = length (error_messages c)"
    by blast
  have "\<exists>summary c. generate_summary_report results_mixed = Inr summary
         \<and> map_of summary ''c.example'' = Some c
         \<and> num_successful_runs c = 0
         \<and> avg_load_time_ms c = NA \<and> min_load_time_ms c = NA \<and> max_load_time_ms c = NA
         \<and> median_load_time_ms c = NA \<and> std_dev_load_time_ms c = NA
         \<and> num_errors c = 2
         \<and> error_messages c
             = [Some ''Timeout after 30 seconds waiting for page load (Combined strategy).'',
                Some ''Unknown Error'']"
    by (rule exI[of _ summary], rule exI[of _ c]) (simp add: s c m)
  with u n show ?thesis by simp
qed

section \<open>The settings file and the JSON export\<close>

lemma isinstance_IOError [simp]: "isinstance (Exn IOError msg) IOError"
  by (simp add: isinstance_def)

lemma save_settings_eq:
  "save_settings v fs =
     (None, if write_error fs = None then fs\<lparr>settings_file := Some (Json_text v)\<rparr> else fs)"
  by (simp add: save_settings_def split: option.splits)

lemma back_fill_dict:
  assumes "distinct (map fst defs)"
  shows "back_fill defs (PDict d) upd =
     Inr (PDict (d @ filter (\<lambda>kv. fst kv \<notin> fst ` set d) defs),
          upd \<or> filter (\<lambda>kv. fst kv \<notin> fst ` set d) defs \<noteq> [])"
  using assms
proof (induction defs arbitrary: d upd)
  case Nil
  show ?case by simp
next
  case (Cons kv defs)
  obtain k v where kv: "kv = (k, v)" by (cases kv)
  from Cons.prems kv have d: "distinct (map fst defs)" and nk: "k \<notin> fst ` set defs" by auto
  show ?case
  proof (cases "k \<in> fst ` set d")
    case True
    then show ?thesis using Cons.IH[OF d, of d upd] by (simp add: kv key_in_def)
  next
    case False
    have same: "filter (\<lambda>kv. fst kv \<notin> fst ` set (d @ [(k, v)])) defs
       = filter (\<lambda>kv. fst kv \<notin> fst ` set d) defs"
      by (rule filter_cong) (use nk in auto)
    have same2: "filter (\<lambda>kv. fst kv \<noteq> k \<and> fst kv \<notin> fst ` set d) defs
       = filter (\<lambda>kv. fst kv \<notin> fst ` set d) defs"
      by (rule filter_cong) (use nk in auto)
    show ?thesis
      using False Cons.IH[OF d, of "d @ [(k, v)]" True]
      by (simp add: kv key_in_def set_item_def same same2)
  qed
qed

lemma default_keys_distinct: "distinct (map fst DEFAULT_SETTINGS)"
  by (simp add: DEFAULT_SETTINGS_def)

lemma back_filled_lookup:
  "map_of (d @ filter (\<lambda>kv. fst kv \<notin> fst ` set d) defs) k
     = (case map_of d k of Some v \<Rightarrow> Some v | None \<Rightarrow> map_of defs k)"
proof (cases "map_of d k")
  case (Some v)
  then show ?thesis by (simp add: map_add_Some_iff)
next
  case None
  then have nk: "k \<notin> fst ` set d" by (simp add: map_of_eq_None_iff)
  have "map_of (filter (\<lambda>kv. fst kv \<notin> fst ` set d) defs) k = map_of defs k"
    using nk by (induction defs) auto
  with None show ?thesis by (simp add: map_add_def)
qed


lemma load_settings_object:
  assumes "settings_file fs = Some (Json_text (PDict d))" and "read_error fs = None"
  shows "load_settings fs =
     (Inr (PDict (d @ filter (\<lambda>kv. fst kv \<notin> fst ` set d) DEFAULT_SETTINGS)),
      if filter (\<lambda>kv. fst kv \<notin> fst ` set d) DEFAULT_SETTINGS \<noteq> [] \<and> write_error fs = None
      then fs\<lparr>settings_file :=
              Some (Json_text (PDict (d @ filter (\<lambda>kv. fst kv \<notin> fst ` set d) DEFAULT_SETTINGS)))\<rparr>
      else fs)"
  using assms
  by (simp add: load_settings_def read_settings_def back_fill_dict[OF default_keys_distinct]
      save_settings_eq)

lemma load_settings_load_raises:
  assumes "settings_file fs = Some (Load_raises e)" and "read_error fs = None"
  shows "load_settings fs =
     (if isinstance e JSONDecodeError \<or> isinstance e IOError
      then Inr (PDict DEFAULT_SETTINGS) else Inl e, fs)"
  using assms by (simp add: load_settings_def read_settings_def)

lemma load_settings_not_json:
  assumes "settings_file fs = Some (Load_raises (Exn JSONDecodeError msg))"
  shows "load_settings fs = (Inr (PDict DEFAULT_SETTINGS), fs)"
  using assms
  by (simp add: load_settings_def read_settings_def isinstance_def split: option.splits)

lemma load_settings_no_file:
  assumes "settings_file fs = None"
  shows "load_settings fs =
     (Inr (PDict DEFAULT_SETTINGS),
      if write_error fs = None then fs\<lparr>settings_file := Some (Json_text (PDict DEFAULT_SETTINGS))\<rparr>
      else fs)"
  using assms by (simp add: load_settings_def save_settings_eq)

lemma load_settings_unreadable:
  assumes "settings_file fs \<noteq> None" and "read_error fs = Some msg"
  shows "load_settings fs = (Inr (PDict DEFAULT_SETTINGS), fs)"
  using assms by (auto simp: load_settings_def read_settings_def)

text \<open>
  A file that parses to a value other than an object. On \<^verbatim>\<open>null\<close>, a boolean or
  a number the membership test of line 37 raises a \<^verbatim>\<open>TypeError\<close>; on an array
  that lacks one of the default keys as an element, the assignment of line 38 does.
  Either leaves \<^verbatim>\<open>load_settings\<close>, and the file is left as it was.
\<close>

lemma back_fill_scalar:
  assumes "\<forall>d. v \<noteq> PDict d" and "\<forall>t. v \<noteq> PStr t" and "\<forall>l. v \<noteq> PList l"
    and "defs \<noteq> []"
  shows "\<exists>msg. back_fill defs v upd = Inl (Exn TypeError msg)"
proof -
  obtain k x rest where defs: "defs = (k, x) # rest"
    using assms(4) by (cases defs) auto
  show ?thesis
    using assms(1,2,3) by (cases v) (simp_all add: defs key_in_def)
qed

lemma back_fill_array:
  assumes "\<exists>kv \<in> set defs. PStr (fst kv) \<notin> set l"
  shows "\<exists>msg. back_fill defs (PList l) upd = Inl (Exn TypeError msg)"
  using assms
proof (induction defs)
  case Nil
  then show ?case by simp
next
  case (Cons kv defs)
  obtain k x where kv: "kv = (k, x)" by (cases kv)
  show ?case
  proof (cases "PStr k \<in> set l")
    case True
    with Cons.prems kv have "\<exists>kv \<in> set defs. PStr (fst kv) \<notin> set l" by auto
    from Cons.IH[OF this] True show ?thesis by (simp add: kv key_in_def)
  next
    case False
    then show ?thesis by (simp add: kv key_in_def set_item_def)
  qed
qed

lemma load_settings_not_object_raises:
  assumes "settings_file fs = Some (Json_text v)" and "read_error fs = None"
    and "\<forall>d. v \<noteq> PDict d" and "\<forall>t. v \<noteq> PStr t"
    and "\<forall>l. v = PList l \<longrightarrow> (\<exists>kv \<in> set DEFAULT_SETTINGS. PStr (fst kv) \<notin> set l)"
  shows "\<exists>msg. load_settings fs = (Inl (Exn TypeError msg), fs)"
proof -
  have "\<exists>msg. back_fill DEFAULT_SETTINGS v False = Inl (Exn TypeError msg)"
  proof (cases "\<exists>l. v = PList l")
    case True
    then obtain l where l: "v = PList l" by blast
    with assms(5) have "\<exists>kv \<in> set DEFAULT_SETTINGS. PStr (fst kv) \<notin> set l" by blast
    from back_fill_array[OF this] l show ?thesis by simp
  next
    case False
    have ne: "DEFAULT_SETTINGS \<noteq> []" by (simp add: DEFAULT_SETTINGS_def)
    from False have "\<forall>l. v \<noteq> PList l" by blast
    from back_fill_scalar[OF assms(3,4) this ne] show ?thesis .
  qed
  then obtain msg where m: "back_fill DEFAULT_SETTINGS v False = Inl (Exn TypeError msg)"
    by blast
  have "load_settings fs = (Inl (Exn TypeError msg), fs)"
    using assms(1,2) by (simp add: load_settings_def read_settings_def m isinstance_def)
  then show ?thesis by blast
qed

text \<open>
  Claim C9. The docstring of \<^verbatim>\<open>load_settings\<close> promises the defaults when the file
  is invalid, and the handler of line 43 is there for the corrupted file; yet it names
  two classes only. Loading a settings file that holds the JSON array \<^verbatim>\<open>[]\<close> raises a
  \<^verbatim>\<open>TypeError\<close> out of \<^verbatim>\<open>load_settings\<close> at the assignment of line 38, and
  a file that holds \<^verbatim>\<open>null\<close> raises one at the test of line 37: no key is
  back-filled and the file is not rewritten. Loading a file whose bytes are not UTF-8
  text raises \<^verbatim>\<open>UnicodeDecodeError\<close>, and a file nested too deep raises
  \<^verbatim>\<open>RecursionError\<close>: neither is the fallback to the defaults. In all four cases
  the file is left as it was.
\<close>

theorem load_settings_raises_on_invalid_file:
  "load_settings fs_array
     = (Inl (Exn TypeError ''list indices must be integers or slices, not str''), fs_array)
   \<and> load_settings fs_null
     = (Inl (Exn TypeError
               (''argument of type '' @ [CHR 0x27] @ ''NoneType'' @ [CHR 0x27]
                @ '' is not iterable'')), fs_null)
   \<and> load_settings fs_undecodable
     = (Inl (Exn UnicodeDecodeError
               (CHR 0x27 # ''utf-8' codec can't decode byte 0xff in position 0: invalid start byte'')),
        fs_undecodable)
   \<and> load_settings fs_too_deep
     = (Inl (Exn RecursionError
               ''maximum recursion depth exceeded while decoding a JSON array from a unicode string''),
        fs_too_deep)"
proof -
  have a: "load_settings fs_array
     = (Inl (Exn TypeError ''list indices must be integers or slices, not str''), fs_array)"
    by (simp add: load_settings_def read_settings_def fs_array_def DEFAULT_SETTINGS_def
        key_in_def set_item_def isinstance_def)
  have n: "load_settings fs_null
     = (Inl (Exn TypeError
               (''argument of type '' @ [CHR 0x27] @ ''NoneType'' @ [CHR 0x27]
                @ '' is not iterable'')), fs_null)"
    by (simp add: load_settings_def read_settings_def fs_null_def DEFAULT_SETTINGS_def
        key_in_def type_name_def isinstance_def)
  have u: "load_settings fs_undecodable
     = (Inl (Exn UnicodeDecodeError
               (CHR 0x27 # ''utf-8' codec can't decode byte 0xff in position 0: invalid start byte'')),
        fs_undecodable)"
    by (simp add: load_settings_def read_settings_def fs_undecodable_def isinstance_def)
  have t: "load_settings fs_too_deep
     = (Inl (Exn RecursionError
               ''maximum recursion depth exceeded while decoding a JSON array from a unicode string''),
        fs_too_deep)"
    by (simp add: load_settings_def read_settings_def fs_too_deep_def isinstance_def)
  show ?thesis using a n u t by simp
qed


lemma generate_summary_report_returns: "\<exists>summary. generate_summary_report rs = Inr summary"
  using generate_summary_report_entries[of rs] by blast

text \<open>The dictionary of a result determines the result: no field is lost in it.\<close>

lemma status_str_inj: "status_str a = status_str b \<Longrightarrow> a = b"
  by (cases a; cases b) (simp_all add: status_str_def)

lemma timing_dict_inj: "timing_dict a = timing_dict b \<Longrightarrow> a = b"
  by (cases a; cases b) (auto simp: timing_dict_def)

lemma timing_dict_not_None: "timing_dict t \<noteq> PNone" "PNone \<noteq> timing_dict t"
  by (cases t; simp add: timing_dict_def)+

lemma result_dict_inj:
  assumes "result_dict a = result_dict b"
  shows "a = b"
proof -
  have u: "url a = url b" "load_time_ms a = load_time_ms b" "status a = status b"
    using assms status_str_inj by (auto simp: result_dict_def)
  have rest: "(case error_message a of
                 None \<Rightarrow> []
               | Some None \<Rightarrow> [(''error_message'', PNone)]
               | Some (Some msg) \<Rightarrow> [(''error_message'', PStr msg)])
            @ (case navigation_timing a of
                 None \<Rightarrow> []
               | Some None \<Rightarrow> [(''navigation_timing'', PNone)]
               | Some (Some t) \<Rightarrow> [(''navigation_timing'', timing_dict t)])
            @ [(''timestamp'', PNum (timestamp a))]
            @ (case run_number a of
                 None \<Rightarrow> []
               | Some n \<Rightarrow> [(''run_number'', PInt (int n))])
            @ (case config a of
                 None \<Rightarrow> []
               | Some c \<Rightarrow> [(''config'', PDict c)])
         = (case error_message b of
                 None \<Rightarrow> []
               | Some None \<Rightarrow> [(''error_message'', PNone)]
               | Some (Some msg) \<Rightarrow> [(''error_message'', PStr msg)])
            @ (case navigation_timing b of
                 None \<Rightarrow> []
               | Some None \<Rightarrow> [(''navigation_timing'', PNone)]
               | Some (Some t) \<Rightarrow> [(''navigation_timing'', timing_dict t)])
            @ [(''timestamp'', PNum (timestamp b))]
            @ (case run_number b of
                 None \<Rightarrow> []
               | Some n \<Rightarrow> [(''run_number'', PInt (int n))])
            @ (case config b of
                 None \<Rightarrow> []
               | Some c \<Rightarrow> [(''config'', PDict c)])"
    using assms by (simp add: result_dict_def)
  have e: "error_message a = error_message b \<and> navigation_timing a = navigation_timing b
      \<and> timestamp a = timestamp b \<and> run_number a = run_number b \<and> config a = config b"
    using rest timing_dict_inj
    by (cases "error_message a"; cases "error_message b"; cases "navigation_timing a";
        cases "navigation_timing b"; cases "run_number a"; cases "run_number b";
        cases "config a"; cases "config b")
       (auto simp: timing_dict_not_None split: option.splits)
  show ?thesis using u e by (cases a; cases b) simp
qed


lemma map_result_dict_inj: "map result_dict xs = map result_dict ys \<Longrightarrow> xs = ys"
  by (rule map_injective) (auto simp: inj_on_def dest: result_dict_inj)

text \<open>
  The dictionary handed to \<^verbatim>\<open>json.dump\<close>: its three keys, in this order, the
  results in their order, and the settings without the key \<^verbatim>\<open>results\<close>.
\<close>

lemma export_data_document:
  "\<exists>summary. generate_summary_report rs = Inr summary
      \<and> export_data settings rs
          = Inr (PDict [(''summary_report'', summary_dict summary),
                        (''raw_results'', PList (map result_dict rs)),
                        (''test_configuration'',
                           PDict (filter (\<lambda>kv. fst kv \<noteq> ''results'') settings))])"
proof -
  obtain summary where s: "generate_summary_report rs = Inr summary"
    using generate_summary_report_returns by blast
  show ?thesis by (rule exI[of _ summary]) (simp add: export_data_def s)
qed

lemma settings_without_results:
  "map_of (filter (\<lambda>kv. fst kv \<noteq> ''results'') settings) k
     = (if k = ''results'' then None else map_of settings k)"
  by (induction settings) auto

end
